theory Spec2Isabelle
  imports Main "HOL-Library.Multiset" "HOL-Library.Sublist"
begin

section \<open>The notification source of the EPP data layer\<close>

text \<open>
  This theory embeds \<^verbatim>\<open>K8sNotificationSource\<close> (package \<^verbatim>\<open>notification\<close>) and the
  declarations of package \<^verbatim>\<open>datalayer\<close> it uses: the source's constructor, its accessors,
  \<^verbatim>\<open>Extractors\<close>, \<^verbatim>\<open>AddExtractor\<close>, \<^verbatim>\<open>Collect\<close> and \<^verbatim>\<open>Notify\<close>.

  Go values become HOL values, the receiver \<^verbatim>\<open>s\<close> is passed and returned explicitly where
  a method may write to it, and everything a method does to the rest of the program (the
  memory the plugins own, the logger) is a field of an explicit \<open>world\<close>.
\<close>

subsection \<open>Errors\<close>

text \<open>
  A Go \<^verbatim>\<open>error\<close> is kept as the way it was built: \<^verbatim>\<open>errors.New\<close> and \<^verbatim>\<open>fmt.Errorf\<close>
  without \<^verbatim>\<open>%w\<close> give a message, \<^verbatim>\<open>fmt.Errorf\<close> with \<^verbatim>\<open>%w\<close> a message and the wrapped
  error, \<^verbatim>\<open>errors.Join\<close> the list of the joined errors. A result of type \<^verbatim>\<open>error\<close> is an
  \<open>error option\<close>, with \<open>None\<close> for \<^verbatim>\<open>nil\<close>.
\<close>

datatype error =
    ErrorString string
  | WrapError string error
  | JoinError "error list"

fun join_lines :: "string list \<Rightarrow> string" where
  "join_lines [] = []"
| "join_lines [l] = l"
| "join_lines (l # m # ls) = l @ [CHR 0x0A] @ join_lines (m # ls)"

text \<open>The method \<^verbatim>\<open>Error()\<close>: the message of an error.\<close>

fun Error :: "error \<Rightarrow> string" where
  "Error (ErrorString m) = m"
| "Error (WrapError m e) = m"
| "Error (JoinError es) = join_lines (map Error es)"

subsection \<open>The data model\<close>

record TypedName =
  Type :: string
  Name :: string

text \<open>
  Modelled from the spec: the method \<^verbatim>\<open>TypedName.String()\<close> of package \<^verbatim>\<open>plugin\<close> is
  not among the source files. The specification gives the rendering as
  \<^verbatim>\<open>"<Type>/<Name>"\<close>. It is also what the verb \<^verbatim>\<open>%s\<close> of \<^verbatim>\<open>fmt.Errorf\<close> prints for a
  \<^verbatim>\<open>TypedName\<close>.
\<close>

definition TypedName_String :: "TypedName \<Rightarrow> string" where
  "TypedName_String tn = Type tn @ ''/'' @ Name tn"

record GroupVersionKind =
  Group :: string
  Version :: string
  Kind :: string

datatype EventType = EventAddOrUpdate | EventDelete

text \<open>
  \<^verbatim>\<open>NotificationEvent\<close>; its field \<^verbatim>\<open>Type\<close> is \<open>EType\<close> here, since \<open>Type\<close> is the field of
  \<open>TypedName\<close>. The object is a document of any type \<open>'obj\<close>.
\<close>

record 'obj NotificationEvent =
  EType :: EventType
  Object :: 'obj

text \<open>
  A \<^verbatim>\<open>context.Context\<close>, as far as cancellation goes: \<open>ctxErr\<close> is what \<^verbatim>\<open>ctx.Err()\<close>
  returns, \<open>None\<close> while the context is live and an error once it is cancelled or its
  deadline has passed. The record is extensible, so a context may carry anything else.
\<close>

record Context =
  ctxErr :: "error option"

text \<open>
  The dynamic value behind an interface value of type \<^verbatim>\<open>Extractor\<close>. Every plugin has
  the method \<^verbatim>\<open>TypedName()\<close>. The method \<^verbatim>\<open>ExtractNotification\<close> is \<open>None\<close> when the
  plugin's type does not have it, which is when the type assertion
  \<^verbatim>\<open>ext.(NotificationExtractor)\<close> fails; when the type has it, the method reads and
  writes the memory \<open>'h\<close> of the program (which the plugins may share) and returns an
  error or \<^verbatim>\<open>nil\<close>. The interface value itself is a \<open>plugin option\<close>, \<open>None\<close> for \<^verbatim>\<open>nil\<close>.
\<close>

record ('c, 'obj, 'h) plugin =
  TypedName :: TypedName
  ExtractNotification ::
    "('c Context_scheme \<Rightarrow> 'obj NotificationEvent \<Rightarrow> 'h \<Rightarrow> error option \<times> 'h) option"

definition implementsNotificationExtractor :: "('c, 'obj, 'h) plugin \<Rightarrow> bool" where
  "implementsNotificationExtractor p =
     (case ExtractNotification p of None \<Rightarrow> False | Some f \<Rightarrow> True)"

subsection \<open>The concurrent map\<close>

text \<open>
  The \<^verbatim>\<open>sync.Map\<close> of the source is a list of entries with distinct keys.
  \<^verbatim>\<open>LoadOrStore\<close> returns the value already stored under the key, if there is one, and
  stores the given value otherwise; its second result says which.
\<close>

type_synonym ('k, 'v) syncMap = "('k \<times> 'v) list"

definition LoadOrStore :: "('k, 'v) syncMap \<Rightarrow> 'k \<Rightarrow> 'v \<Rightarrow> ('v \<times> bool) \<times> ('k, 'v) syncMap" where
  "LoadOrStore m k v =
     (case map_of m k of
        Some actual \<Rightarrow> ((actual, True), m)
      | None \<Rightarrow> ((v, False), m @ [(k, v)]))"

text \<open>
  \<^verbatim>\<open>Range\<close> visits the entries in an order that Go leaves open. The order is a parameter
  here: \<open>visit n\<close> takes entry number \<open>n mod length\<close> first and goes on with the quotient
  on the rest, so that every order of visiting is \<open>visit n\<close> for some \<open>n\<close>. Both callbacks
  of this program return \<^verbatim>\<open>true\<close> in every branch, so \<^verbatim>\<open>Range\<close> never stops early.
\<close>

function visit :: "nat \<Rightarrow> 'a list \<Rightarrow> 'a list" where
  "visit n [] = []"
| "visit n (x # xs) =
     (let i = n mod length (x # xs)
      in (x # xs) ! i # visit (n div length (x # xs)) (take i (x # xs) @ drop (Suc i) (x # xs)))"
  by pat_completeness auto
termination
  by (relation "measure (\<lambda>(n, xs). length xs)") (auto simp: less_Suc_eq_le)

definition Range :: "nat \<Rightarrow> ('k, 'v) syncMap \<Rightarrow> ('k \<times> 'v) list" where
  "Range ord m = visit ord m"

subsection \<open>The source and the world around it\<close>

record ('c, 'obj, 'h) K8sNotificationSource =
  typedName :: TypedName
  gvk :: GroupVersionKind
  extractors :: "(string, ('c, 'obj, 'h) plugin) syncMap"

text \<open>
  One call of \<^verbatim>\<open>ExtractNotification\<close>: the plugin called, by its \<^verbatim>\<open>TypedName\<close>, the
  arguments it received and what it returned.
\<close>

record ('c, 'obj) call =
  callee :: TypedName
  call_ctx :: "'c Context_scheme"
  call_event :: "'obj NotificationEvent"
  call_result :: "error option"

text \<open>
  One call of \<^verbatim>\<open>logger.Error\<close>: the values the logger was given with \<^verbatim>\<open>WithValues\<close>,
  the error and the message.
\<close>

record log_entry =
  log_gvk :: GroupVersionKind
  log_eventType :: EventType
  log_err :: error
  log_msg :: string

text \<open>
  The world: the memory of the plugins, the calls of \<^verbatim>\<open>ExtractNotification\<close> made so far
  (kept for the specification only; the program does not read them) and the output of
  the logger.
\<close>

record ('c, 'obj, 'h) world =
  heap :: 'h
  calls :: "('c, 'obj) call list"
  logged :: "log_entry list"

subsection \<open>The methods of the source\<close>

definition NewK8sNotificationSource ::
  "string \<Rightarrow> string \<Rightarrow> GroupVersionKind \<Rightarrow> ('c, 'obj, 'h) K8sNotificationSource" where
  "NewK8sNotificationSource pluginType pluginName g =
     \<lparr>typedName = \<lparr>Type = pluginType, Name = pluginName\<rparr>, gvk = g, extractors = []\<rparr>"

definition K8s_TypedName :: "('c, 'obj, 'h) K8sNotificationSource \<Rightarrow> TypedName" where
  "K8s_TypedName s = typedName s"

definition GVK :: "('c, 'obj, 'h) K8sNotificationSource \<Rightarrow> GroupVersionKind" where
  "GVK s = gvk s"

text \<open>The callback of \<^verbatim>\<open>Extractors\<close>, run over the entries in the order of the visit.\<close>

fun Extractors_loop :: "(string \<times> ('c, 'obj, 'h) plugin) list \<Rightarrow> string list \<Rightarrow> string list" where
  "Extractors_loop [] names = names"
| "Extractors_loop ((k, val) # rest) names =
     (case ExtractNotification val of
        Some f \<Rightarrow> Extractors_loop rest (names @ [TypedName_String (TypedName val)])
      | None \<Rightarrow> Extractors_loop rest names)"

definition Extractors :: "nat \<Rightarrow> ('c, 'obj, 'h) K8sNotificationSource \<Rightarrow> string list" where
  "Extractors ord s = Extractors_loop (Range ord (extractors s)) []"

text \<open>
  \<^verbatim>\<open>AddExtractor\<close> returns its error and the source, whose map it may have extended.
\<close>

definition AddExtractor ::
  "('c, 'obj, 'h) K8sNotificationSource \<Rightarrow> ('c, 'obj, 'h) plugin option
     \<Rightarrow> error option \<times> ('c, 'obj, 'h) K8sNotificationSource" where
  "AddExtractor s ext =
     (case ext of
        None \<Rightarrow> (Some (ErrorString ''cannot add nil extractor''), s)
      | Some nExt \<Rightarrow>
          (case ExtractNotification nExt of
             None \<Rightarrow>
               (Some (ErrorString (''extractor '' @ TypedName_String (TypedName nExt)
                        @ '' does not implement NotificationExtractor'')), s)
           | Some f \<Rightarrow>
               (case LoadOrStore (extractors s) (Name (TypedName nExt)) nExt of
                  ((actual, loaded), m) \<Rightarrow>
                    if loaded
                    then (Some (ErrorString (''duplicate extractor ''
                            @ TypedName_String (TypedName nExt) @ '' on notification source ''
                            @ TypedName_String (K8s_TypedName s))), s\<lparr>extractors := m\<rparr>)
                    else (None, s\<lparr>extractors := m\<rparr>))))"

text \<open>\<^verbatim>\<open>Collect\<close> ignores both arguments and returns \<^verbatim>\<open>nil\<close>.\<close>

definition Collect ::
  "('c, 'obj, 'h) K8sNotificationSource \<Rightarrow> 'c Context_scheme \<Rightarrow> 'ep \<Rightarrow> ('c, 'obj, 'h) world
     \<Rightarrow> error option \<times> ('c, 'obj, 'h) K8sNotificationSource \<times> ('c, 'obj, 'h) world" where
  "Collect s ctx ep w = (None, s, w)"

text \<open>
  The callback of \<^verbatim>\<open>Notify\<close>, run over the entries in the order of the visit, with the
  slice \<^verbatim>\<open>errs\<close> and the world as the state of the loop.
\<close>

fun Notify_loop ::
  "'c Context_scheme \<Rightarrow> 'obj NotificationEvent \<Rightarrow> (string \<times> ('c, 'obj, 'h) plugin) list
     \<Rightarrow> error list \<Rightarrow> ('c, 'obj, 'h) world \<Rightarrow> error list \<times> ('c, 'obj, 'h) world" where
  "Notify_loop ctx event [] errs w = (errs, w)"
| "Notify_loop ctx event ((k, val) # rest) errs w =
     (case ExtractNotification val of
        None \<Rightarrow> Notify_loop ctx event rest errs w
      | Some f \<Rightarrow>
          (case f ctx event (heap w) of
             (r, h') \<Rightarrow>
               (let w' = w\<lparr>heap := h',
                           calls := calls w @ [\<lparr>callee = TypedName val, call_ctx = ctx,
                                                call_event = event, call_result = r\<rparr>]\<rparr>
                in case r of
                     Some err \<Rightarrow>
                       Notify_loop ctx event rest
                         (errs @ [WrapError (''extractor '' @ TypedName_String (TypedName val)
                                     @ '': '' @ Error err) err]) w'
                   | None \<Rightarrow> Notify_loop ctx event rest errs w')))"

text \<open>
  \<^verbatim>\<open>Notify\<close> has no result in Go: all it gives back is what it did to the world. It does
  not write to the source.
\<close>

definition Notify ::
  "nat \<Rightarrow> ('c, 'obj, 'h) K8sNotificationSource \<Rightarrow> 'c Context_scheme \<Rightarrow> 'obj NotificationEvent
     \<Rightarrow> ('c, 'obj, 'h) world \<Rightarrow> ('c, 'obj, 'h) world" where
  "Notify ord s ctx event w =
     (case Notify_loop ctx event (Range ord (extractors s)) [] w of
        (errs, w') \<Rightarrow>
          if length errs > 0
          then w'\<lparr>logged := logged w' @
                  [\<lparr>log_gvk = gvk s, log_eventType = EType event, log_err = JoinError errs,
                    log_msg = ''extractor(s) failed processing notification''\<rparr>]\<rparr>
          else w')"

subsection \<open>Sequences of operations\<close>

text \<open>
  The wiring phase: a list of calls of \<^verbatim>\<open>AddExtractor\<close>, with the error of each call
  and the source after the last one. \<open>wired\<close> is a freshly constructed source after
  such a list of calls.
\<close>

fun AddExtractors ::
  "('c, 'obj, 'h) K8sNotificationSource \<Rightarrow> ('c, 'obj, 'h) plugin option list
     \<Rightarrow> error option list \<times> ('c, 'obj, 'h) K8sNotificationSource" where
  "AddExtractors s [] = ([], s)"
| "AddExtractors s (ext # exts) =
     (case AddExtractor s ext of
        (r, s') \<Rightarrow> (case AddExtractors s' exts of (rs, s'') \<Rightarrow> (r # rs, s'')))"

definition wired ::
  "string \<Rightarrow> string \<Rightarrow> GroupVersionKind \<Rightarrow> ('c, 'obj, 'h) plugin option list
     \<Rightarrow> ('c, 'obj, 'h) K8sNotificationSource" where
  "wired pluginType pluginName g exts =
     snd (AddExtractors (NewK8sNotificationSource pluginType pluginName g) exts)"

text \<open>
  Steady state: a list of calls of \<^verbatim>\<open>Notify\<close> on one source, each with its own context,
  its own event and its own order of visiting the map.
\<close>

fun Notify_all ::
  "('c, 'obj, 'h) K8sNotificationSource \<Rightarrow> (nat \<times> 'c Context_scheme \<times> 'obj NotificationEvent) list
     \<Rightarrow> ('c, 'obj, 'h) world \<Rightarrow> ('c, 'obj, 'h) world" where
  "Notify_all s [] w = w"
| "Notify_all s ((ord, ctx, event) # rest) w = Notify_all s rest (Notify ord s ctx event w)"

text \<open>Any mix of the three operations that write or could write, in any order.\<close>

datatype ('c, 'obj, 'h, 'ep) operation =
    DoAddExtractor "('c, 'obj, 'h) plugin option"
  | DoNotify nat "'c Context_scheme" "'obj NotificationEvent"
  | DoCollect "'c Context_scheme" 'ep

fun perform ::
  "('c, 'obj, 'h, 'ep) operation
     \<Rightarrow> ('c, 'obj, 'h) K8sNotificationSource \<times> ('c, 'obj, 'h) world
     \<Rightarrow> ('c, 'obj, 'h) K8sNotificationSource \<times> ('c, 'obj, 'h) world" where
  "perform (DoAddExtractor ext) (s, w) = (snd (AddExtractor s ext), w)"
| "perform (DoNotify ord ctx event) (s, w) = (s, Notify ord s ctx event w)"
| "perform (DoCollect ctx ep) (s, w) = snd (Collect s ctx ep w)"

definition run ::
  "('c, 'obj, 'h, 'ep) operation list
     \<Rightarrow> ('c, 'obj, 'h) K8sNotificationSource \<times> ('c, 'obj, 'h) world
     \<Rightarrow> ('c, 'obj, 'h) K8sNotificationSource \<times> ('c, 'obj, 'h) world" where
  "run ops st = fold perform ops st"

subsection \<open>Vocabulary of the properties\<close>

text \<open>The extractors registered on a source: the values of its map.\<close>

definition registered :: "('c, 'obj, 'h) K8sNotificationSource \<Rightarrow> ('c, 'obj, 'h) plugin list" where
  "registered s = map snd (extractors s)"

text \<open>The calls of \<^verbatim>\<open>ExtractNotification\<close> that one call of \<^verbatim>\<open>Notify\<close> makes.\<close>

definition invoked ::
  "nat \<Rightarrow> ('c, 'obj, 'h) K8sNotificationSource \<Rightarrow> 'c Context_scheme \<Rightarrow> 'obj NotificationEvent
     \<Rightarrow> ('c, 'obj, 'h) world \<Rightarrow> ('c, 'obj) call list" where
  "invoked ord s ctx event w = drop (length (calls w)) (calls (Notify ord s ctx event w))"

text \<open>The events one extractor has observed in a list of calls, in the order of the calls.\<close>

definition observed_by :: "TypedName \<Rightarrow> ('c, 'obj) call list \<Rightarrow> 'obj NotificationEvent list" where
  "observed_by tn cs = map call_event (filter (\<lambda>c. callee c = tn) cs)"

text \<open>
  The error \<^verbatim>\<open>Notify\<close> builds from a call that failed: the error of the call, wrapped
  with the name of the extractor.
\<close>

definition wrap_failed :: "('c, 'obj) call \<Rightarrow> error option" where
  "wrap_failed c =
     (case call_result c of
        None \<Rightarrow> None
      | Some err \<Rightarrow>
          Some (WrapError (''extractor '' @ TypedName_String (callee c) @ '': '' @ Error err) err))"

text \<open>
  The calls a visit of the entries \<open>es\<close> makes from the memory \<open>h\<close>, and the memory after
  them: the loop of \<^verbatim>\<open>Notify\<close> without its bookkeeping.
\<close>

fun loop_calls ::
  "'c Context_scheme \<Rightarrow> 'obj NotificationEvent \<Rightarrow> (string \<times> ('c, 'obj, 'h) plugin) list
     \<Rightarrow> 'h \<Rightarrow> ('c, 'obj) call list \<times> 'h" where
  "loop_calls ctx event [] h = ([], h)"
| "loop_calls ctx event ((k, val) # rest) h =
     (case ExtractNotification val of
        None \<Rightarrow> loop_calls ctx event rest h
      | Some f \<Rightarrow>
          (case f ctx event h of
             (r, h') \<Rightarrow>
               (case loop_calls ctx event rest h' of
                  (cs, h'') \<Rightarrow>
                    (\<lparr>callee = TypedName val, call_ctx = ctx, call_event = event,
                      call_result = r\<rparr> # cs, h''))))"

text \<open>
  What holds of the map of every source that was constructed and then only written by
  \<^verbatim>\<open>AddExtractor\<close>: the keys are distinct, every value is stored under the \<open>Name\<close> of
  its \<open>TypedName\<close>, and every value has the method \<^verbatim>\<open>ExtractNotification\<close>.
\<close>

definition entry_ok :: "string \<times> ('c, 'obj, 'h) plugin \<Rightarrow> bool" where
  "entry_ok e = (fst e = Name (TypedName (snd e)) \<and> implementsNotificationExtractor (snd e))"

definition map_ok :: "(string, ('c, 'obj, 'h) plugin) syncMap \<Rightarrow> bool" where
  "map_ok m = (distinct (map fst m) \<and> list_all entry_ok m)"

text \<open>The plugins one call of \<^verbatim>\<open>Notify\<close> visits, in the order of the visit.\<close>

definition visited ::
  "nat \<Rightarrow> ('c, 'obj, 'h) K8sNotificationSource \<Rightarrow> ('c, 'obj, 'h) plugin list" where
  "visited ord s = map snd (Range ord (extractors s))"

text \<open>
  What it is to call \<^verbatim>\<open>ExtractNotification\<close> on every plugin of a list, one after the
  other: the code of each plugin runs on the memory the one before it left, and the
  result is the calls, each with what the code returned, and the memory after the last
  one. No plugin is skipped and no effect is dropped.
\<close>

fun extract_all ::
  "'c Context_scheme \<Rightarrow> 'obj NotificationEvent \<Rightarrow> ('c, 'obj, 'h) plugin list \<Rightarrow> 'h
     \<Rightarrow> ('c, 'obj) call list \<times> 'h" where
  "extract_all ctx event [] h = ([], h)"
| "extract_all ctx event (p # ps) h =
     (case the (ExtractNotification p) ctx event h of
        (r, h') \<Rightarrow>
          (case extract_all ctx event ps h' of
             (cs, h'') \<Rightarrow>
               (\<lparr>callee = TypedName p, call_ctx = ctx, call_event = event,
                 call_result = r\<rparr> # cs, h'')))"

text \<open>
  What it is to deliver a list of events to a source in their order: the first event
  goes to every plugin the source visits, then the second, and so on, each on the memory
  its predecessor left.
\<close>

fun deliver_all ::
  "('c, 'obj, 'h) K8sNotificationSource \<Rightarrow> (nat \<times> 'c Context_scheme \<times> 'obj NotificationEvent) list
     \<Rightarrow> 'h \<Rightarrow> ('c, 'obj) call list \<times> 'h" where
  "deliver_all s [] h = ([], h)"
| "deliver_all s ((ord, ctx, event) # rest) h =
     (case extract_all ctx event (visited ord s) h of
        (cs, h') \<Rightarrow> (case deliver_all s rest h' of (ds, h'') \<Rightarrow> (cs @ ds, h'')))"

subsection \<open>Plugins and a kind for the examples\<close>

text \<open>
  Three plugins: a notification extractor that returns \<^verbatim>\<open>nil\<close>, one that returns a given
  error, both leaving the memory alone, and a plugin with the base capability only.
\<close>

definition succeeding :: "TypedName \<Rightarrow> ('c, 'obj, 'h) plugin" where
  "succeeding tn = \<lparr>TypedName = tn, ExtractNotification = Some (\<lambda>ctx event h. (None, h))\<rparr>"

definition failing :: "TypedName \<Rightarrow> error \<Rightarrow> ('c, 'obj, 'h) plugin" where
  "failing tn err = \<lparr>TypedName = tn, ExtractNotification = Some (\<lambda>ctx event h. (Some err, h))\<rparr>"

definition base_only :: "TypedName \<Rightarrow> ('c, 'obj, 'h) plugin" where
  "base_only tn = \<lparr>TypedName = tn, ExtractNotification = None\<rparr>"

definition pods :: GroupVersionKind where
  "pods = \<lparr>Group = '''', Version = ''v1'', Kind = ''Pod''\<rparr>"

text \<open>
  A test extractor that records: the memory is a journal, and the extractor appends its
  name and the event it was given, then returns \<open>r\<close>, which is \<^verbatim>\<open>nil\<close> or an error.
  \<open>journal_of\<close> reads the events one extractor has recorded back from the journal.
\<close>

definition recording ::
  "TypedName \<Rightarrow> error option \<Rightarrow> ('c, 'obj, (TypedName \<times> 'obj NotificationEvent) list) plugin" where
  "recording tn r =
     \<lparr>TypedName = tn, ExtractNotification = Some (\<lambda>ctx event h. (r, h @ [(tn, event)]))\<rparr>"

definition journal_of ::
  "TypedName \<Rightarrow> (TypedName \<times> 'obj NotificationEvent) list \<Rightarrow> 'obj NotificationEvent list" where
  "journal_of tn h = map snd (filter (\<lambda>x. fst x = tn) h)"

section \<open>Lemmas\<close>

subsection \<open>The order of a visit\<close>

lemma mset_visit: "mset (visit n xs) = mset xs"
proof (induction n xs rule: visit.induct)
  case (1 n)
  then show ?case by simp
next
  case (2 n x xs)
  let ?ys = "x # xs"
  let ?i = "n mod length ?ys"
  have i: "?i < length ?ys" by simp
  have split: "?ys = take ?i ?ys @ ?ys ! ?i # drop (Suc ?i) ?ys"
    using i by (rule id_take_nth_drop)
  have "mset (visit n ?ys) = {#?ys ! ?i#} + mset (take ?i ?ys @ drop (Suc ?i) ?ys)"
    using 2 by (simp add: Let_def)
  also have "\<dots> = mset (take ?i ?ys @ ?ys ! ?i # drop (Suc ?i) ?ys)"
    by simp
  also have "\<dots> = mset ?ys"
    using split by simp
  finally show ?case .
qed

lemma mset_Range: "mset (Range ord m) = mset m"
  by (simp add: Range_def mset_visit)

text \<open>Every order of the entries is the order of some visit.\<close>

lemma visit_nonempty:
  "xs \<noteq> [] \<Longrightarrow>
   visit n xs =
     xs ! (n mod length xs)
       # visit (n div length xs) (take (n mod length xs) xs @ drop (Suc (n mod length xs)) xs)"
  by (cases xs) (simp_all add: Let_def)

lemma div_of_index: "i < (k::nat) \<Longrightarrow> (i + m * k) div k = m"
  by force

lemma visit_complete: "mset ys = mset xs \<Longrightarrow> \<exists>n. visit n xs = ys"
proof (induction ys arbitrary: xs)
  case Nil
  then show ?case by simp
next
  case (Cons y ys)
  have "y \<in> set xs"
    using Cons.prems by (metis list.set_intros(1) mset_eq_setD)
  then obtain i where i: "i < length xs" "xs ! i = y"
    by (auto simp: in_set_conv_nth)
  let ?rest = "take i xs @ drop (Suc i) xs"
  have "xs = take i xs @ y # drop (Suc i) xs"
    using i id_take_nth_drop by blast
  then have "mset xs = add_mset y (mset ?rest)"
    by (metis mset.simps(2) mset_append union_mset_add_mset_right)
  then have "mset ys = mset ?rest"
    using Cons.prems by simp
  then obtain m where m: "visit m ?rest = ys"
    using Cons.IH by blast
  have ne: "xs \<noteq> []" using i by auto
  have "(i + m * length xs) mod length xs = i"
    using i by simp
  moreover have "(i + m * length xs) div length xs = m"
    using i(1) by (rule div_of_index)
  ultimately
  have "visit (i + m * length xs) xs = y # ys"
    using visit_nonempty [OF ne, of "i + m * length xs"] i m by simp
  then show ?case by blast
qed

lemma Range_complete: "mset ys = mset m \<Longrightarrow> \<exists>ord. Range ord m = ys"
  unfolding Range_def by (rule visit_complete)

subsection \<open>The loop of Notify\<close>

lemma Notify_loop_eq:
  "Notify_loop ctx event es errs w =
     (errs @ List.map_filter wrap_failed (fst (loop_calls ctx event es (heap w))),
      w\<lparr>heap := snd (loop_calls ctx event es (heap w)),
        calls := calls w @ fst (loop_calls ctx event es (heap w))\<rparr>)"
proof (induction es arbitrary: errs w)
  case Nil
  then show ?case by simp
next
  case (Cons e es)
  obtain k val where e: "e = (k, val)" by (cases e)
  show ?case
  proof (cases "ExtractNotification val")
    case None
    then show ?thesis using Cons e by simp
  next
    case (Some f)
    obtain r h' where f: "f ctx event (heap w) = (r, h')" by (cases "f ctx event (heap w)")
    obtain cs h'' where l: "loop_calls ctx event es h' = (cs, h'')"
      by (cases "loop_calls ctx event es h'")
    show ?thesis
      using Some e f l
      by (cases r) (simp_all add: Cons.IH Let_def wrap_failed_def)
  qed
qed

lemma fst_loop_calls_Cons:
  "fst (loop_calls ctx event ((k, val) # rest) h) =
     (case ExtractNotification val of
        None \<Rightarrow> fst (loop_calls ctx event rest h)
      | Some f \<Rightarrow>
          \<lparr>callee = TypedName val, call_ctx = ctx, call_event = event,
            call_result = fst (f ctx event h)\<rparr>
          # fst (loop_calls ctx event rest (snd (f ctx event h))))"
  by (simp split: option.splits prod.splits)

lemma snd_loop_calls_Cons:
  "snd (loop_calls ctx event ((k, val) # rest) h) =
     (case ExtractNotification val of
        None \<Rightarrow> snd (loop_calls ctx event rest h)
      | Some f \<Rightarrow> snd (loop_calls ctx event rest (snd (f ctx event h))))"
  by (simp split: option.splits prod.splits)

lemma callee_loop_calls:
  "map callee (fst (loop_calls ctx event es h)) =
     map (\<lambda>e. TypedName (snd e)) (filter (\<lambda>e. implementsNotificationExtractor (snd e)) es)"
proof (induction es arbitrary: h)
  case Nil
  then show ?case by simp
next
  case (Cons e es)
  obtain k val where e: "e = (k, val)" by (cases e)
  show ?case
    using Cons e
    by (simp only: fst_loop_calls_Cons)
       (simp add: implementsNotificationExtractor_def split: option.splits)
qed

lemma event_loop_calls:
  "map call_event (fst (loop_calls ctx event es h)) =
     replicate (length (fst (loop_calls ctx event es h))) event"
proof (induction es arbitrary: h)
  case Nil
  then show ?case by simp
next
  case (Cons e es)
  obtain k val where e: "e = (k, val)" by (cases e)
  show ?case
    using Cons e by (simp only: fst_loop_calls_Cons) (simp split: option.splits)
qed

lemma ctx_loop_calls:
  "map call_ctx (fst (loop_calls ctx event es h)) =
     replicate (length (fst (loop_calls ctx event es h))) ctx"
proof (induction es arbitrary: h)
  case Nil
  then show ?case by simp
next
  case (Cons e es)
  obtain k val where e: "e = (k, val)" by (cases e)
  show ?case
    using Cons e by (simp only: fst_loop_calls_Cons) (simp split: option.splits)
qed

lemma length_loop_calls:
  "length (fst (loop_calls ctx event es h)) =
     length (filter (\<lambda>e. implementsNotificationExtractor (snd e)) es)"
  using arg_cong [OF callee_loop_calls, of length ctx event es h] by simp

subsection \<open>What one call of Notify does\<close>

lemma calls_Notify:
  "calls (Notify ord s ctx event w) =
     calls w @ fst (loop_calls ctx event (Range ord (extractors s)) (heap w))"
  by (simp add: Notify_def Notify_loop_eq)

lemma heap_Notify:
  "heap (Notify ord s ctx event w) = snd (loop_calls ctx event (Range ord (extractors s)) (heap w))"
  by (simp add: Notify_def Notify_loop_eq)

lemma invoked_eq:
  "invoked ord s ctx event w = fst (loop_calls ctx event (Range ord (extractors s)) (heap w))"
  by (simp add: invoked_def calls_Notify)

lemma logged_Notify:
  "logged (Notify ord s ctx event w) =
     logged w @
       (if List.map_filter wrap_failed (invoked ord s ctx event w) = [] then []
        else [\<lparr>log_gvk = gvk s, log_eventType = EType event,
               log_err = JoinError (List.map_filter wrap_failed (invoked ord s ctx event w)),
               log_msg = ''extractor(s) failed processing notification''\<rparr>])"
  by (simp add: Notify_def Notify_loop_eq invoked_eq)

subsection \<open>The loop of Extractors\<close>

lemma Extractors_loop_eq:
  "Extractors_loop es names =
     names @ map (\<lambda>e. TypedName_String (TypedName (snd e)))
               (filter (\<lambda>e. implementsNotificationExtractor (snd e)) es)"
proof (induction es arbitrary: names)
  case Nil
  then show ?case by simp
next
  case (Cons e es)
  obtain k val where e: "e = (k, val)" by (cases e)
  show ?case
    using Cons e
    by (simp add: implementsNotificationExtractor_def split: option.splits)
qed

subsection \<open>The map of a source\<close>

lemma map_ok_filter:
  "map_ok m \<Longrightarrow> filter (\<lambda>e. implementsNotificationExtractor (snd e)) (Range ord m) = Range ord m"
proof -
  assume ok: "map_ok m"
  have "set (Range ord m) = set m"
    using mset_Range [of ord m] by (metis set_mset_mset)
  then have "\<forall>e \<in> set (Range ord m). implementsNotificationExtractor (snd e)"
    using ok by (simp add: map_ok_def entry_ok_def list_all_iff)
  then show ?thesis by simp
qed

lemma LoadOrStore_cases:
  "LoadOrStore m k v =
     (if k \<in> fst ` set m then ((the (map_of m k), True), m) else ((v, False), m @ [(k, v)]))"
proof (cases "map_of m k")
  case None
  then have "k \<notin> fst ` set m" by (simp add: map_of_eq_None_iff)
  with None show ?thesis by (simp add: LoadOrStore_def)
next
  case (Some a)
  then have "(k, a) \<in> set m" by (rule map_of_SomeD)
  then have "k \<in> fst ` set m" by force
  with Some show ?thesis by (simp add: LoadOrStore_def)
qed

lemma AddExtractor_cases:
  "AddExtractor s ext =
     (case ext of
        None \<Rightarrow> (Some (ErrorString ''cannot add nil extractor''), s)
      | Some p \<Rightarrow>
          if \<not> implementsNotificationExtractor p
          then (Some (ErrorString (''extractor '' @ TypedName_String (TypedName p)
                   @ '' does not implement NotificationExtractor'')), s)
          else if Name (TypedName p) \<in> fst ` set (extractors s)
          then (Some (ErrorString (''duplicate extractor '' @ TypedName_String (TypedName p)
                   @ '' on notification source '' @ TypedName_String (typedName s))), s)
          else (None, s\<lparr>extractors := extractors s @ [(Name (TypedName p), p)]\<rparr>))"
  by (simp add: AddExtractor_def LoadOrStore_cases implementsNotificationExtractor_def
        K8s_TypedName_def
      split: option.splits)

lemma map_ok_AddExtractor:
  "map_ok (extractors s) \<Longrightarrow> map_ok (extractors (snd (AddExtractor s ext)))"
  by (auto simp: AddExtractor_cases map_ok_def entry_ok_def split: option.splits)

lemma map_ok_AddExtractors:
  "map_ok (extractors s) \<Longrightarrow> map_ok (extractors (snd (AddExtractors s exts)))"
proof (induction exts arbitrary: s)
  case Nil
  then show ?case by simp
next
  case (Cons ext exts)
  have "map_ok (extractors (snd (AddExtractor s ext)))"
    using Cons.prems by (rule map_ok_AddExtractor)
  then have "map_ok (extractors (snd (AddExtractors (snd (AddExtractor s ext)) exts)))"
    by (rule Cons.IH)
  then show ?case by (simp add: split_beta)
qed

lemma map_ok_wired: "map_ok (extractors (wired t n g exts))"
  unfolding wired_def
  by (rule map_ok_AddExtractors) (simp add: NewK8sNotificationSource_def map_ok_def)

lemma map_ok_perform: "map_ok (extractors (fst st)) \<Longrightarrow> map_ok (extractors (fst (perform op st)))"
  by (cases op; cases st) (simp_all add: map_ok_AddExtractor Collect_def)

lemma map_ok_run: "map_ok (extractors (fst st)) \<Longrightarrow> map_ok (extractors (fst (run ops st)))"
  unfolding run_def
  by (induction ops arbitrary: st) (simp_all add: map_ok_perform)

lemma map_of_absent: "k \<notin> fst ` set m \<Longrightarrow> map_of m k = None"
  by (simp add: map_of_eq_None_iff)

lemma keys_map_ok: "map_ok m \<Longrightarrow> fst ` set m = Name ` TypedName ` snd ` set m"
proof -
  assume "map_ok m"
  then have "\<forall>e \<in> set m. fst e = Name (TypedName (snd e))"
    by (simp add: map_ok_def entry_ok_def list_all_iff)
  then show ?thesis by (force simp: image_iff)
qed

lemma callee_invoked:
  "map callee (invoked ord s ctx event w) =
     map (\<lambda>e. TypedName (snd e))
       (filter (\<lambda>e. implementsNotificationExtractor (snd e)) (Range ord (extractors s)))"
  by (simp add: invoked_eq callee_loop_calls)

lemma callee_invoked_ok:
  "map_ok (extractors s) \<Longrightarrow>
   map callee (invoked ord s ctx event w) = map (\<lambda>e. TypedName (snd e)) (Range ord (extractors s))"
  by (simp add: callee_invoked map_ok_filter)

lemma length_invoked_ok:
  "map_ok (extractors s) \<Longrightarrow> length (invoked ord s ctx event w) = length (extractors s)"
proof -
  assume "map_ok (extractors s)"
  then have "length (map callee (invoked ord s ctx event w))
               = length (map (\<lambda>e. TypedName (snd e)) (Range ord (extractors s)))"
    by (simp only: callee_invoked_ok)
  moreover have "length (Range ord (extractors s)) = length (extractors s)"
    using mset_Range [of ord "extractors s"] by (rule mset_eq_length)
  ultimately show ?thesis by simp
qed

lemma mset_callee_invoked_ok:
  "map_ok (extractors s) \<Longrightarrow>
   mset (map callee (invoked ord s ctx event w)) = mset (map TypedName (registered s))"
proof -
  assume ok: "map_ok (extractors s)"
  have "mset (map (\<lambda>e. TypedName (snd e)) (Range ord (extractors s)))
          = image_mset (\<lambda>e. TypedName (snd e)) (mset (Range ord (extractors s)))"
    by simp
  also have "\<dots> = image_mset (\<lambda>e. TypedName (snd e)) (mset (extractors s))"
    by (simp only: mset_Range)
  also have "\<dots> = mset (map TypedName (registered s))"
    by (simp add: registered_def multiset.map_comp comp_def)
  finally show ?thesis using ok by (simp only: callee_invoked_ok)
qed

lemma event_invoked:
  "map call_event (invoked ord s ctx event w) = replicate (length (invoked ord s ctx event w)) event"
  by (simp only: invoked_eq event_loop_calls)

lemma ctx_invoked:
  "map call_ctx (invoked ord s ctx event w) = replicate (length (invoked ord s ctx event w)) ctx"
  by (simp only: invoked_eq ctx_loop_calls)

subsection \<open>What one extractor observes\<close>

lemma filter_absent_key: "k \<notin> f ` set xs \<Longrightarrow> filter (\<lambda>y. f y = k) xs = []"
  by (induction xs) auto

lemma filter_distinct_key:
  "distinct (map f xs) \<Longrightarrow> x \<in> set xs \<Longrightarrow> filter (\<lambda>y. f y = f x) xs = [x]"
proof (induction xs)
  case Nil
  then show ?case by simp
next
  case (Cons a xs)
  show ?case
  proof (cases "a = x")
    case True
    then have "f x \<notin> f ` set xs" using Cons.prems by simp
    then have "filter (\<lambda>y. f y = f x) xs = []"
      by (rule filter_absent_key)
    with True show ?thesis by simp
  next
    case False
    then have "x \<in> set xs" using Cons.prems by simp
    then have "f a \<noteq> f x" using Cons.prems by auto
    moreover have "filter (\<lambda>y. f y = f x) xs = [x]"
      using Cons.IH Cons.prems \<open>x \<in> set xs\<close> by simp
    ultimately show ?thesis by simp
  qed
qed

lemma distinct_TypedNames:
  "map_ok m \<Longrightarrow> distinct (map (\<lambda>e. TypedName (snd e)) m)"
proof -
  assume ok: "map_ok m"
  then have "\<forall>e \<in> set m. fst e = Name (TypedName (snd e))"
    by (simp add: map_ok_def entry_ok_def list_all_iff)
  then have "map fst m = map (Name \<circ> (\<lambda>e. TypedName (snd e))) m"
    by simp
  moreover have "distinct (map fst m)" using ok by (simp add: map_ok_def)
  ultimately have "distinct (map (Name \<circ> (\<lambda>e. TypedName (snd e))) m)"
    by (simp only:)
  then have "distinct (map Name (map (\<lambda>e. TypedName (snd e)) m))"
    by (simp only: map_map)
  then show ?thesis by (rule distinct_map [THEN iffD1, THEN conjunct1])
qed

lemma observed_by_invoked:
  assumes ok: "map_ok (extractors s)" and p: "p \<in> set (registered s)"
  shows "observed_by (TypedName p) (invoked ord s ctx event w) = [event]"
proof -
  let ?cs = "invoked ord s ctx event w"
  have callees: "map callee ?cs = map (\<lambda>e. TypedName (snd e)) (Range ord (extractors s))"
    using ok by (rule callee_invoked_ok)
  have "mset (map (\<lambda>e. TypedName (snd e)) (Range ord (extractors s)))
          = mset (map (\<lambda>e. TypedName (snd e)) (extractors s))"
    using mset_Range [of ord "extractors s"] by (metis mset_map)
  then have d: "distinct (map callee ?cs)" and
    s: "set (map callee ?cs) = set (map (\<lambda>e. TypedName (snd e)) (extractors s))"
    using distinct_TypedNames [OF ok] callees
    by (metis mset_eq_imp_distinct_iff, metis mset_eq_setD)
  have "TypedName p \<in> set (map callee ?cs)"
    using p s by (auto simp: registered_def)
  then obtain c where c: "c \<in> set ?cs" "callee c = TypedName p" by auto
  have "filter (\<lambda>y. callee y = callee c) ?cs = [c]"
    using d c(1) by (rule filter_distinct_key)
  moreover have "call_event c = event"
  proof -
    have "call_event c \<in> set (map call_event ?cs)" using c(1) by simp
    then show ?thesis by (simp only: event_invoked) simp
  qed
  ultimately show ?thesis using c(2) by (simp add: observed_by_def)
qed

lemma calls_Notify_all_prefix:
  "\<exists>rest. calls (Notify_all s evs w) = calls w @ rest"
proof (induction evs arbitrary: w)
  case Nil
  then show ?case by simp
next
  case (Cons ev evs)
  obtain ord ctx event where ev: "ev = (ord, ctx, event)" by (cases ev)
  obtain rest where "calls (Notify_all s evs (Notify ord s ctx event w))
                       = calls (Notify ord s ctx event w) @ rest"
    using Cons.IH by blast
  then show ?case using ev by (simp add: calls_Notify)
qed

lemma observed_by_append: "observed_by tn (xs @ ys) = observed_by tn xs @ observed_by tn ys"
  by (simp add: observed_by_def)

lemma observed_by_Notify_all:
  assumes ok: "map_ok (extractors s)" and p: "p \<in> set (registered s)"
  shows "observed_by (TypedName p) (drop (length (calls w)) (calls (Notify_all s evs w)))
           = map (\<lambda>ev. snd (snd ev)) evs"
proof (induction evs arbitrary: w)
  case Nil
  then show ?case by (simp add: observed_by_def)
next
  case (Cons ev evs)
  obtain ord ctx event where ev: "ev = (ord, ctx, event)" by (cases ev)
  let ?w1 = "Notify ord s ctx event w"
  obtain rest where rest: "calls (Notify_all s evs ?w1) = calls ?w1 @ rest"
    using calls_Notify_all_prefix by blast
  have w1: "calls ?w1 = calls w @ invoked ord s ctx event w"
    by (simp add: invoked_eq calls_Notify)
  have "observed_by (TypedName p) rest = map (\<lambda>ev. snd (snd ev)) evs"
    using Cons.IH [of ?w1] rest by simp
  moreover have "drop (length (calls w)) (calls (Notify_all s (ev # evs) w))
                   = invoked ord s ctx event w @ rest"
    using ev rest w1 by simp
  ultimately show ?case
    using ev observed_by_invoked [OF ok p] by (simp add: observed_by_append)
qed

subsection \<open>The calls and the memory, from the code of the plugins\<close>

lemma loop_calls_extract_all:
  "list_all (\<lambda>e. implementsNotificationExtractor (snd e)) es \<Longrightarrow>
   loop_calls ctx event es h = extract_all ctx event (map snd es) h"
proof (induction es arbitrary: h)
  case Nil
  then show ?case by simp
next
  case (Cons e es)
  obtain k val where e: "e = (k, val)" by (cases e)
  obtain f where f: "ExtractNotification val = Some f"
    using Cons.prems e by (auto simp: implementsNotificationExtractor_def split: option.splits)
  have "list_all (\<lambda>e. implementsNotificationExtractor (snd e)) es"
    using Cons.prems by simp
  then have "loop_calls ctx event es h' = extract_all ctx event (map snd es) h'" for h'
    by (rule Cons.IH)
  then show ?case using e f by (simp split: prod.splits)
qed

lemma all_implement_Range:
  "map_ok m \<Longrightarrow> list_all (\<lambda>e. implementsNotificationExtractor (snd e)) (Range ord m)"
proof -
  assume ok: "map_ok m"
  have "set (Range ord m) = set m"
    using mset_Range [of ord m] by (rule mset_eq_setD)
  then show ?thesis
    using ok by (simp add: map_ok_def entry_ok_def list_all_iff)
qed

lemma Notify_extract_all:
  "map_ok (extractors s) \<Longrightarrow>
   (invoked ord s ctx event w, heap (Notify ord s ctx event w))
     = extract_all ctx event (visited ord s) (heap w)"
  by (simp add: invoked_eq heap_Notify visited_def
        loop_calls_extract_all [OF all_implement_Range, symmetric])

lemma mset_visited: "mset (visited ord s) = mset (registered s)"
proof -
  have "mset (map snd (Range ord (extractors s))) = image_mset snd (mset (Range ord (extractors s)))"
    by simp
  also have "\<dots> = image_mset snd (mset (extractors s))"
    by (simp only: mset_Range)
  finally show ?thesis by (simp add: visited_def registered_def)
qed

lemma calls_Notify_all:
  "calls (Notify_all s evs w) = calls w @ drop (length (calls w)) (calls (Notify_all s evs w))"
proof -
  obtain rest where "calls (Notify_all s evs w) = calls w @ rest"
    using calls_Notify_all_prefix by blast
  then show ?thesis by simp
qed

lemma Notify_all_deliver_all:
  "map_ok (extractors s) \<Longrightarrow>
   (drop (length (calls w)) (calls (Notify_all s evs w)), heap (Notify_all s evs w))
     = deliver_all s evs (heap w)"
proof (induction evs arbitrary: w)
  case Nil
  then show ?case by simp
next
  case (Cons ev evs)
  obtain ord ctx event where ev: "ev = (ord, ctx, event)" by (cases ev)
  let ?w1 = "Notify ord s ctx event w"
  have one: "(invoked ord s ctx event w, heap ?w1) = extract_all ctx event (visited ord s) (heap w)"
    using Cons.prems by (rule Notify_extract_all)
  obtain tl where tl: "calls (Notify_all s evs ?w1) = calls ?w1 @ tl"
    using calls_Notify_all_prefix by blast
  have w1: "calls ?w1 = calls w @ invoked ord s ctx event w"
    by (simp add: invoked_eq calls_Notify)
  have "(drop (length (calls ?w1)) (calls (Notify_all s evs ?w1)), heap (Notify_all s evs ?w1))
                = deliver_all s evs (heap ?w1)"
    using Cons.prems by (rule Cons.IH)
  then have rest: "deliver_all s evs (heap ?w1) = (tl, heap (Notify_all s evs ?w1))"
    using tl by simp
  have "drop (length (calls w)) (calls (Notify_all s (ev # evs) w))
          = invoked ord s ctx event w @ tl"
    using ev tl w1 by simp
  then show ?case
    using ev one [symmetric] rest by simp
qed

subsection \<open>What an extractor that records ends with\<close>

lemma view_untouched:
  assumes frame: "\<forall>q \<in> set ps. TypedName q \<noteq> tn \<longrightarrow>
            (\<forall>ctx event h. view (snd (the (ExtractNotification q) ctx event h)) = view h)"
    and absent: "tn \<notin> TypedName ` set ps"
  shows "view (snd (extract_all ctx event ps h)) = view h"
  using assms
proof (induction ps arbitrary: h)
  case Nil
  then show ?case by simp
next
  case (Cons q ps)
  have "TypedName q \<noteq> tn" using Cons.prems(2) by auto
  then have q: "view (snd (the (ExtractNotification q) ctx event h)) = view h"
    using Cons.prems(1) by simp
  have "view (snd (extract_all ctx event ps (snd (the (ExtractNotification q) ctx event h))))
          = view (snd (the (ExtractNotification q) ctx event h))"
    using Cons.prems by (intro Cons.IH) simp_all
  then show ?case using q by (simp add: split_beta)
qed

lemma view_extended_once:
  assumes rec: "\<forall>ctx event h. view (snd (the (ExtractNotification p) ctx event h)) = view h @ [event]"
    and frame: "\<forall>q \<in> set ps. TypedName q \<noteq> TypedName p \<longrightarrow>
            (\<forall>ctx event h. view (snd (the (ExtractNotification q) ctx event h)) = view h)"
    and dist: "distinct (map TypedName ps)"
    and mem: "p \<in> set ps"
  shows "view (snd (extract_all ctx event ps h)) = view h @ [event]"
  using frame dist mem
proof (induction ps arbitrary: h)
  case Nil
  then show ?case by simp
next
  case (Cons q ps)
  let ?h1 = "snd (the (ExtractNotification q) ctx event h)"
  have rest_frame: "\<forall>q \<in> set ps. TypedName q \<noteq> TypedName p \<longrightarrow>
            (\<forall>ctx event h. view (snd (the (ExtractNotification q) ctx event h)) = view h)"
    using Cons.prems(1) by simp
  show ?case
  proof (cases "TypedName q = TypedName p")
    case True
    then have "TypedName p \<notin> TypedName ` set ps"
      using Cons.prems(2) by simp
    with rest_frame have "view (snd (extract_all ctx event ps ?h1)) = view ?h1"
      by (rule view_untouched)
    moreover have "q = p"
    proof (rule ccontr)
      assume "q \<noteq> p"
      then have "p \<in> set ps" using Cons.prems(3) by simp
      then have "TypedName p \<in> TypedName ` set ps" by simp
      then show False using True Cons.prems(2) by simp
    qed
    ultimately show ?thesis using rec by (simp add: split_beta)
  next
    case False
    then have m: "p \<in> set ps" using Cons.prems(3) by auto
    have d: "distinct (map TypedName ps)" using Cons.prems(2) by simp
    have "view (snd (extract_all ctx event ps ?h1)) = view ?h1 @ [event]"
      using rest_frame d m by (rule Cons.IH)
    moreover have "view ?h1 = view h" using False Cons.prems(1) by simp
    ultimately show ?thesis by (simp add: split_beta)
  qed
qed

lemma distinct_visited: "map_ok (extractors s) \<Longrightarrow> distinct (map TypedName (visited ord s))"
proof -
  assume ok: "map_ok (extractors s)"
  have "mset (map TypedName (visited ord s)) = image_mset TypedName (mset (visited ord s))"
    by simp
  also have "\<dots> = image_mset TypedName (mset (registered s))"
    by (simp only: mset_visited)
  also have "\<dots> = mset (map (\<lambda>e. TypedName (snd e)) (extractors s))"
    by (simp add: registered_def multiset.map_comp comp_def)
  finally have "distinct (map TypedName (visited ord s))
                  = distinct (map (\<lambda>e. TypedName (snd e)) (extractors s))"
    by (rule mset_eq_imp_distinct_iff)
  then show ?thesis
    using distinct_TypedNames [OF ok] by simp
qed

lemma set_visited: "set (visited ord s) = set (registered s)"
  using mset_visited [of ord s] by (rule mset_eq_setD)

lemma view_after_Notify:
  assumes ok: "map_ok (extractors s)"
    and mem: "p \<in> set (registered s)"
    and rec: "\<forall>ctx event h. view (snd (the (ExtractNotification p) ctx event h)) = view h @ [event]"
    and frame: "\<forall>q \<in> set (registered s). TypedName q \<noteq> TypedName p \<longrightarrow>
            (\<forall>ctx event h. view (snd (the (ExtractNotification q) ctx event h)) = view h)"
  shows "view (heap (Notify ord s ctx event w)) = view (heap w) @ [event]"
proof -
  have "view (snd (extract_all ctx event (visited ord s) (heap w))) = view (heap w) @ [event]"
  proof (rule view_extended_once [OF rec])
    show "\<forall>q \<in> set (visited ord s). TypedName q \<noteq> TypedName p \<longrightarrow>
            (\<forall>ctx event h. view (snd (the (ExtractNotification q) ctx event h)) = view h)"
      using frame by (simp only: set_visited)
    show "distinct (map TypedName (visited ord s))"
      using ok by (rule distinct_visited)
    show "p \<in> set (visited ord s)"
      using mem by (simp only: set_visited)
  qed
  then show ?thesis
    using Notify_extract_all [OF ok, of ord ctx event w, symmetric] by simp
qed

lemma view_after_Notify_all:
  assumes ok: "map_ok (extractors s)"
    and mem: "p \<in> set (registered s)"
    and rec: "\<forall>ctx event h. view (snd (the (ExtractNotification p) ctx event h)) = view h @ [event]"
    and frame: "\<forall>q \<in> set (registered s). TypedName q \<noteq> TypedName p \<longrightarrow>
            (\<forall>ctx event h. view (snd (the (ExtractNotification q) ctx event h)) = view h)"
  shows "view (heap (Notify_all s evs w)) = view (heap w) @ map (\<lambda>ev. snd (snd ev)) evs"
proof (induction evs arbitrary: w)
  case Nil
  then show ?case by simp
next
  case (Cons ev evs)
  obtain ord ctx event where ev: "ev = (ord, ctx, event)" by (cases ev)
  have "view (heap (Notify ord s ctx event w)) = view (heap w) @ [event]"
    using ok mem rec frame by (rule view_after_Notify)
  then show ?case using ev Cons.IH [of "Notify ord s ctx event w"] by simp
qed

subsection \<open>The wiring phase and the list of names\<close>

lemma extractors_AddExtractors:
  "extractors (snd (AddExtractors s exts)) =
     extractors s @
       map (\<lambda>er. (Name (TypedName (the (fst er))), the (fst er)))
         (filter (\<lambda>er. snd er = None) (zip exts (fst (AddExtractors s exts))))"
proof (induction exts arbitrary: s)
  case Nil
  then show ?case by simp
next
  case (Cons ext exts)
  show ?case
  proof (cases "fst (AddExtractor s ext) = None")
    case True
    then obtain p where p: "ext = Some p"
      "snd (AddExtractor s ext) = s\<lparr>extractors := extractors s @ [(Name (TypedName p), p)]\<rparr>"
      by (cases ext) (auto simp: AddExtractor_cases split: if_splits)
    show ?thesis
      using True p Cons.IH [of "snd (AddExtractor s ext)"]
      by (simp add: split_beta)
  next
    case False
    then have "snd (AddExtractor s ext) = s"
      by (cases ext) (auto simp: AddExtractor_cases split: if_splits)
    then show ?thesis
      using False Cons.IH [of s]
      by (simp add: split_beta)
  qed
qed

lemma length_AddExtractors: "length (fst (AddExtractors s exts)) = length exts"
  by (induction exts arbitrary: s) (simp_all add: split_beta)

lemma Extractors_ok:
  "map_ok (extractors s) \<Longrightarrow>
   Extractors ord s = map (\<lambda>e. TypedName_String (TypedName (snd e))) (Range ord (extractors s))"
  by (simp add: Extractors_def Extractors_loop_eq map_ok_filter)

lemma mset_Extractors_ok:
  "map_ok (extractors s) \<Longrightarrow>
   mset (Extractors ord s) = mset (map (\<lambda>p. TypedName_String (TypedName p)) (registered s))"
proof -
  assume ok: "map_ok (extractors s)"
  have "mset (map (\<lambda>e. TypedName_String (TypedName (snd e))) (Range ord (extractors s)))
          = image_mset (\<lambda>e. TypedName_String (TypedName (snd e))) (mset (Range ord (extractors s)))"
    by simp
  also have "\<dots> = image_mset (\<lambda>e. TypedName_String (TypedName (snd e))) (mset (extractors s))"
    by (simp only: mset_Range)
  also have "\<dots> = mset (map (\<lambda>p. TypedName_String (TypedName p)) (registered s))"
    by (simp add: registered_def multiset.map_comp comp_def)
  finally show ?thesis using ok by (simp only: Extractors_ok)
qed

subsection \<open>Evaluating the examples\<close>

lemmas example_simps =
  wired_def NewK8sNotificationSource_def AddExtractor_cases implementsNotificationExtractor_def
  succeeding_def failing_def base_only_def invoked_eq Range_def registered_def
  TypedName_String_def observed_by_def Notify_def Extractors_def wrap_failed_def
  List.map_filter_def pods_def

section \<open>The properties\<close>

text \<open>
  Claim C8. For every context and every target, \<^verbatim>\<open>Collect\<close> on a notification source
  returns no error (\<^verbatim>\<open>nil\<close>) and leaves the source as it was: its \<open>typedName\<close>, its
  \<open>gvk\<close> and its extractor map are unchanged, and so is the world around it.
\<close>

theorem C8_Collect_is_a_noop:
  "fst (Collect s ctx ep w) = None
   \<and> fst (snd (Collect s ctx ep w)) = s
   \<and> typedName (fst (snd (Collect s ctx ep w))) = typedName s
   \<and> gvk (fst (snd (Collect s ctx ep w))) = gvk s
   \<and> extractors (fst (snd (Collect s ctx ep w))) = extractors s
   \<and> snd (snd (Collect s ctx ep w)) = w"
  by (simp add: Collect_def)

text \<open>
  Claim C4. \<^verbatim>\<open>AddExtractor\<close> returns an error if and only if its argument is \<^verbatim>\<open>nil\<close>
  (the error ``cannot add nil extractor''), or the argument does not implement
  \<^verbatim>\<open>NotificationExtractor\<close> (``does not implement NotificationExtractor''), or the
  \<open>Name\<close> of the argument is already a key of the map (``duplicate extractor'', and the
  value stored first stays). In every error case the source is unchanged; in the other
  case the extractor is added to the map under its \<open>Name\<close>, where a lookup finds it.
\<close>

theorem C4_AddExtractor_errors:
  "AddExtractor s ext =
     (case ext of
        None \<Rightarrow> (Some (ErrorString ''cannot add nil extractor''), s)
      | Some p \<Rightarrow>
          if \<not> implementsNotificationExtractor p
          then (Some (ErrorString (''extractor '' @ TypedName_String (TypedName p)
                   @ '' does not implement NotificationExtractor'')), s)
          else if Name (TypedName p) \<in> fst ` set (extractors s)
          then (Some (ErrorString (''duplicate extractor '' @ TypedName_String (TypedName p)
                   @ '' on notification source '' @ TypedName_String (typedName s))), s)
          else (None, s\<lparr>extractors := extractors s @ [(Name (TypedName p), p)]\<rparr>))
   \<and> (fst (AddExtractor s ext) = None) =
       (\<exists>p. ext = Some p \<and> implementsNotificationExtractor p
            \<and> Name (TypedName p) \<notin> fst ` set (extractors s))
   \<and> (if fst (AddExtractor s ext) = None
       then map_of (extractors (snd (AddExtractor s ext))) (Name (TypedName (the ext))) = ext
       else snd (AddExtractor s ext) = s)"
proof (intro conjI)
  show "AddExtractor s ext =
     (case ext of
        None \<Rightarrow> (Some (ErrorString ''cannot add nil extractor''), s)
      | Some p \<Rightarrow>
          if \<not> implementsNotificationExtractor p
          then (Some (ErrorString (''extractor '' @ TypedName_String (TypedName p)
                   @ '' does not implement NotificationExtractor'')), s)
          else if Name (TypedName p) \<in> fst ` set (extractors s)
          then (Some (ErrorString (''duplicate extractor '' @ TypedName_String (TypedName p)
                   @ '' on notification source '' @ TypedName_String (typedName s))), s)
          else (None, s\<lparr>extractors := extractors s @ [(Name (TypedName p), p)]\<rparr>))"
    by (rule AddExtractor_cases)
  show "(fst (AddExtractor s ext) = None) =
       (\<exists>p. ext = Some p \<and> implementsNotificationExtractor p
            \<and> Name (TypedName p) \<notin> fst ` set (extractors s))"
    by (cases ext) (simp_all add: AddExtractor_cases)
  show "if fst (AddExtractor s ext) = None
       then map_of (extractors (snd (AddExtractor s ext))) (Name (TypedName (the ext))) = ext
       else snd (AddExtractor s ext) = s"
    by (cases ext) (simp_all add: AddExtractor_cases map_add_def map_of_absent)
qed

text \<open>
  Claim C5, as amended. The \<open>Name\<close> of the \<open>TypedName\<close> alone is the uniqueness key
  of a source's extractor set; the \<open>Type\<close> plays no part. On a source that was
  constructed and wired by any calls of \<^verbatim>\<open>AddExtractor\<close>, registering a notification
  extractor succeeds exactly when no registered extractor has the same \<open>Name\<close>. In
  particular, on a fresh source the first registration succeeds, and a second one
  succeeds exactly when its \<open>Name\<close> differs from the first's.
\<close>

theorem C5_Name_is_the_uniqueness_key:
  "(fst (AddExtractor (wired t n g exts) (Some \<lparr>TypedName = tn, ExtractNotification = Some f\<rparr>)) = None)
     = (Name tn \<notin> Name ` TypedName ` set (registered (wired t n g exts)))
   \<and> fst (AddExtractor (NewK8sNotificationSource t n g)
          (Some \<lparr>TypedName = tn, ExtractNotification = Some f\<rparr>)) = None
   \<and> (fst (AddExtractor
          (snd (AddExtractor (NewK8sNotificationSource t n g)
             (Some \<lparr>TypedName = tn, ExtractNotification = Some f\<rparr>)))
          (Some \<lparr>TypedName = tn', ExtractNotification = Some f'\<rparr>)) = None)
     = (Name tn' \<noteq> Name tn)"
proof (intro conjI)
  have "fst ` set (extractors (wired t n g exts))
          = Name ` TypedName ` snd ` set (extractors (wired t n g exts))"
    using map_ok_wired by (rule keys_map_ok)
  then show "(fst (AddExtractor (wired t n g exts)
                (Some \<lparr>TypedName = tn, ExtractNotification = Some f\<rparr>)) = None)
     = (Name tn \<notin> Name ` TypedName ` set (registered (wired t n g exts)))"
    by (simp add: AddExtractor_cases implementsNotificationExtractor_def registered_def)
  show "fst (AddExtractor (NewK8sNotificationSource t n g)
          (Some \<lparr>TypedName = tn, ExtractNotification = Some f\<rparr>)) = None"
    by (simp add: AddExtractor_cases implementsNotificationExtractor_def
          NewK8sNotificationSource_def)
  show "(fst (AddExtractor
          (snd (AddExtractor (NewK8sNotificationSource t n g)
             (Some \<lparr>TypedName = tn, ExtractNotification = Some f\<rparr>)))
          (Some \<lparr>TypedName = tn', ExtractNotification = Some f'\<rparr>)) = None)
     = (Name tn' \<noteq> Name tn)"
    by (simp add: AddExtractor_cases implementsNotificationExtractor_def
          NewK8sNotificationSource_def)
qed

text \<open>
  The claim as it was stated, with the whole pair as the key, fails: two extractors of
  types \<open>lora\<close> and \<open>health\<close>, both named \<open>tracker\<close>, have different \<open>TypedName\<close>s,
  and the second registration is refused as a duplicate.
\<close>

theorem C5_counterexample:
  "TypedName (succeeding \<lparr>Type = ''lora'', Name = ''tracker''\<rparr> :: (unit, unit, unit) plugin)
     \<noteq> TypedName (succeeding \<lparr>Type = ''health'', Name = ''tracker''\<rparr> :: (unit, unit, unit) plugin)
   \<and> fst (AddExtractor (NewK8sNotificationSource ''k8s-notification-source'' ''pods'' pods)
        (Some (succeeding \<lparr>Type = ''lora'', Name = ''tracker''\<rparr> :: (unit, unit, unit) plugin))) = None
   \<and> fst (AddExtractor
        (snd (AddExtractor (NewK8sNotificationSource ''k8s-notification-source'' ''pods'' pods)
           (Some (succeeding \<lparr>Type = ''lora'', Name = ''tracker''\<rparr>))))
        (Some (succeeding \<lparr>Type = ''health'', Name = ''tracker''\<rparr> :: (unit, unit, unit) plugin)))
     = Some (ErrorString
         ''duplicate extractor health/tracker on notification source k8s-notification-source/pods'')"
  by (simp add: AddExtractor_cases succeeding_def implementsNotificationExtractor_def
        NewK8sNotificationSource_def TypedName_String_def)

text \<open>
  Claim C6, as amended. When \<^verbatim>\<open>AddExtractor\<close> rejects a plugin that does not implement
  \<^verbatim>\<open>NotificationExtractor\<close>, the error it returns names the offending plugin: its text
  contains the rendering of the plugin's \<open>TypedName\<close>. The text is made from the plugin
  alone, so it is the same on every source.
\<close>

theorem C6_mismatch_error_names_the_plugin:
  "fst (AddExtractor s (Some \<lparr>TypedName = tn, ExtractNotification = None\<rparr>))
     = Some (ErrorString (''extractor '' @ TypedName_String tn
               @ '' does not implement NotificationExtractor''))
   \<and> sublist (TypedName_String tn)
        (Error (the (fst (AddExtractor s (Some \<lparr>TypedName = tn, ExtractNotification = None\<rparr>)))))
   \<and> fst (AddExtractor s (Some \<lparr>TypedName = tn, ExtractNotification = None\<rparr>))
     = fst (AddExtractor s' (Some \<lparr>TypedName = tn, ExtractNotification = None\<rparr>))"
proof (intro conjI)
  show "fst (AddExtractor s (Some \<lparr>TypedName = tn, ExtractNotification = None\<rparr>))
     = Some (ErrorString (''extractor '' @ TypedName_String tn
               @ '' does not implement NotificationExtractor''))"
    by (simp add: AddExtractor_cases implementsNotificationExtractor_def)
  have "sublist (TypedName_String tn)
          (''extractor '' @ TypedName_String tn @ '' does not implement NotificationExtractor'')"
    by (rule sublist_appendI)
  then show "sublist (TypedName_String tn)
        (Error (the (fst (AddExtractor s (Some \<lparr>TypedName = tn, ExtractNotification = None\<rparr>)))))"
    by (simp add: AddExtractor_cases implementsNotificationExtractor_def)
  show "fst (AddExtractor s (Some \<lparr>TypedName = tn, ExtractNotification = None\<rparr>))
     = fst (AddExtractor s' (Some \<lparr>TypedName = tn, ExtractNotification = None\<rparr>))"
    by (simp add: AddExtractor_cases implementsNotificationExtractor_def)
qed

text \<open>
  The claim as it was stated fails in its second half: on the source
  \<open>k8s-notification-source/pods\<close>, the error for the plugin \<open>lora/tracker\<close> does not
  contain the name of the source.
\<close>

theorem C6_counterexample:
  "fst (AddExtractor
         (NewK8sNotificationSource ''k8s-notification-source'' ''pods'' pods
            :: (unit, unit, unit) K8sNotificationSource)
         (Some (base_only \<lparr>Type = ''lora'', Name = ''tracker''\<rparr>)))
     = Some (ErrorString ''extractor lora/tracker does not implement NotificationExtractor'')
   \<and> \<not> sublist
         (TypedName_String (typedName
            (NewK8sNotificationSource ''k8s-notification-source'' ''pods'' pods
               :: (unit, unit, unit) K8sNotificationSource)))
         ''extractor lora/tracker does not implement NotificationExtractor''"
  by (simp add: AddExtractor_cases base_only_def implementsNotificationExtractor_def
        NewK8sNotificationSource_def TypedName_String_def sublist_code)

text \<open>
  Claim C1. On a source wired by any calls of \<^verbatim>\<open>AddExtractor\<close>, for every order of
  visiting the map, every context, every event and every world, \<^verbatim>\<open>Notify\<close> calls
  \<^verbatim>\<open>ExtractNotification\<close> on every registered extractor, once each, with the event.
  The plugins visited are the registered ones; the calls made and the memory after
  \<^verbatim>\<open>Notify\<close> are those of running the code of each of them in turn, whatever any of
  them returns. So an error from one extractor never keeps the event from another: if
  a registered extractor \<open>p\<close> appends every event it is given to a record of its own
  (\<open>view\<close>), which the other extractors leave alone, then after \<^verbatim>\<open>Notify\<close> that record
  has the event at its end, also when every other extractor returned an error.
\<close>

theorem C1_Notify_reaches_every_extractor:
  fixes view :: "'h \<Rightarrow> 'obj NotificationEvent list"
    and w :: "('c, 'obj, 'h) world"
    and t n g exts
  defines "src \<equiv> wired t n g exts"
  shows
  "mset (visited ord src) = mset (registered src)
   \<and> (invoked ord src ctx event w, heap (Notify ord src ctx event w))
       = extract_all ctx event (visited ord src) (heap w)
   \<and> mset (map callee (invoked ord src ctx event w)) = mset (map TypedName (registered src))
   \<and> map call_event (invoked ord src ctx event w) = replicate (length (registered src)) event
   \<and> (p \<in> set (registered src)
        \<and> (\<forall>c e h. view (snd (the (ExtractNotification p) c e h)) = view h @ [e])
        \<and> (\<forall>q \<in> set (registered src). TypedName q \<noteq> TypedName p \<longrightarrow>
              (\<forall>c e h. view (snd (the (ExtractNotification q) c e h)) = view h))
      \<longrightarrow> view (heap (Notify ord src ctx event w)) = view (heap w) @ [event])"
proof (intro conjI impI)
  have ok: "map_ok (extractors src)"
    unfolding src_def by (rule map_ok_wired)
  show "mset (visited ord src) = mset (registered src)"
    by (rule mset_visited)
  show "(invoked ord src ctx event w, heap (Notify ord src ctx event w))
       = extract_all ctx event (visited ord src) (heap w)"
    using ok by (rule Notify_extract_all)
  show "mset (map callee (invoked ord src ctx event w)) = mset (map TypedName (registered src))"
    using ok by (rule mset_callee_invoked_ok)
  have "length (invoked ord src ctx event w) = length (registered src)"
    using ok by (simp add: length_invoked_ok registered_def)
  then show "map call_event (invoked ord src ctx event w) = replicate (length (registered src)) event"
    by (simp only: event_invoked)
  assume a: "p \<in> set (registered src)
        \<and> (\<forall>c e h. view (snd (the (ExtractNotification p) c e h)) = view h @ [e])
        \<and> (\<forall>q \<in> set (registered src). TypedName q \<noteq> TypedName p \<longrightarrow>
              (\<forall>c e h. view (snd (the (ExtractNotification q) c e h)) = view h))"
  show "view (heap (Notify ord src ctx event w)) = view (heap w) @ [event]"
    using ok a [THEN conjunct1] a [THEN conjunct2, THEN conjunct1]
      a [THEN conjunct2, THEN conjunct2]
    by (rule view_after_Notify)
qed

text \<open>
  An instance: \<open>lora/a\<close> records and fails, \<open>lora/b\<close> records and succeeds; after
  \<^verbatim>\<open>Notify\<close> the journal holds the event for both, and the record of \<open>lora/b\<close> has it.
\<close>

theorem C1_witness:
  "(recording \<lparr>Type = ''lora'', Name = ''b''\<rparr> None :: (unit, string, _) plugin)
     \<in> set (registered (wired ''k8s-notification-source'' ''pods'' pods
           [Some (recording \<lparr>Type = ''lora'', Name = ''a''\<rparr> (Some (ErrorString ''boom''))),
            Some (recording \<lparr>Type = ''lora'', Name = ''b''\<rparr> None)]))
   \<and> map call_result (invoked 0
        (wired ''k8s-notification-source'' ''pods'' pods
           [Some (recording \<lparr>Type = ''lora'', Name = ''a''\<rparr> (Some (ErrorString ''boom''))),
            Some (recording \<lparr>Type = ''lora'', Name = ''b''\<rparr> None)])
        \<lparr>ctxErr = None\<rparr> \<lparr>EType = EventDelete, Object = ''pod-1''\<rparr>
        \<lparr>heap = [], calls = [], logged = []\<rparr>)
     = [Some (ErrorString ''boom''), None]
   \<and> heap (Notify 0
        (wired ''k8s-notification-source'' ''pods'' pods
           [Some (recording \<lparr>Type = ''lora'', Name = ''a''\<rparr> (Some (ErrorString ''boom''))),
            Some (recording \<lparr>Type = ''lora'', Name = ''b''\<rparr> None)])
        \<lparr>ctxErr = None\<rparr> \<lparr>EType = EventDelete, Object = ''pod-1''\<rparr>
        \<lparr>heap = [], calls = [], logged = []\<rparr>)
     = [(\<lparr>Type = ''lora'', Name = ''a''\<rparr>, \<lparr>EType = EventDelete, Object = ''pod-1''\<rparr>),
        (\<lparr>Type = ''lora'', Name = ''b''\<rparr>, \<lparr>EType = EventDelete, Object = ''pod-1''\<rparr>)]
   \<and> journal_of \<lparr>Type = ''lora'', Name = ''b''\<rparr> (heap (Notify 0
        (wired ''k8s-notification-source'' ''pods'' pods
           [Some (recording \<lparr>Type = ''lora'', Name = ''a''\<rparr> (Some (ErrorString ''boom''))),
            Some (recording \<lparr>Type = ''lora'', Name = ''b''\<rparr> None)])
        \<lparr>ctxErr = None\<rparr> \<lparr>EType = EventDelete, Object = ''pod-1''\<rparr>
        \<lparr>heap = [], calls = [], logged = []\<rparr>))
     = [\<lparr>EType = EventDelete, Object = ''pod-1''\<rparr>]"
proof -
  let ?a = "recording \<lparr>Type = ''lora'', Name = ''a''\<rparr> (Some (ErrorString ''boom''))
              :: (unit, string, (TypedName \<times> string NotificationEvent) list) plugin"
  let ?b = "recording \<lparr>Type = ''lora'', Name = ''b''\<rparr> None
              :: (unit, string, (TypedName \<times> string NotificationEvent) list) plugin"
  let ?src = "wired ''k8s-notification-source'' ''pods'' pods [Some ?a, Some ?b]"
  let ?ev = "\<lparr>EType = EventDelete, Object = ''pod-1''\<rparr>"
  let ?w = "\<lparr>heap = [], calls = [], logged = []\<rparr>
              :: (unit, string, (TypedName \<times> string NotificationEvent) list) world"
  let ?view = "journal_of \<lparr>Type = ''lora'', Name = ''b''\<rparr>
              :: (TypedName \<times> string NotificationEvent) list \<Rightarrow> string NotificationEvent list"
  have regs: "registered ?src = [?a, ?b]"
    by (simp add: wired_def NewK8sNotificationSource_def AddExtractor_cases
          implementsNotificationExtractor_def recording_def registered_def)
  have mem: "?b \<in> set (registered ?src)"
    by (simp only: regs) simp
  have rec: "\<forall>c e h. ?view (snd (the (ExtractNotification ?b) c e h)) = ?view h @ [e]"
    by (simp add: recording_def journal_of_def)
  have frame: "\<forall>q \<in> set (registered ?src). TypedName q \<noteq> TypedName ?b \<longrightarrow>
                 (\<forall>c e h. ?view (snd (the (ExtractNotification q) c e h)) = ?view h)"
    by (simp only: regs) (simp add: recording_def journal_of_def)
  note inst = C1_Notify_reaches_every_extractor
    [where ord = 0 and t = "''k8s-notification-source''" and n = "''pods''" and g = pods
       and exts = "[Some ?a, Some ?b]" and ctx = "\<lparr>ctxErr = None\<rparr>" and event = ?ev
       and w = ?w and p = ?b and view = ?view]
  have delivered: "?view (heap (Notify 0 ?src \<lparr>ctxErr = None\<rparr> ?ev ?w)) = ?view (heap ?w) @ [?ev]"
    using inst mem rec frame by blast
  have calls_heap: "(invoked 0 ?src \<lparr>ctxErr = None\<rparr> ?ev ?w, heap (Notify 0 ?src \<lparr>ctxErr = None\<rparr> ?ev ?w))
       = extract_all \<lparr>ctxErr = None\<rparr> ?ev (visited 0 ?src) (heap ?w)"
    using inst by blast
  have vis: "visited 0 ?src = [?a, ?b]"
    by (simp add: visited_def Range_def wired_def NewK8sNotificationSource_def AddExtractor_cases
          implementsNotificationExtractor_def recording_def)
  have "extract_all \<lparr>ctxErr = None\<rparr> ?ev [?a, ?b] (heap ?w)
          = ([\<lparr>callee = \<lparr>Type = ''lora'', Name = ''a''\<rparr>, call_ctx = \<lparr>ctxErr = None\<rparr>,
                call_event = ?ev, call_result = Some (ErrorString ''boom'')\<rparr>,
              \<lparr>callee = \<lparr>Type = ''lora'', Name = ''b''\<rparr>, call_ctx = \<lparr>ctxErr = None\<rparr>,
                call_event = ?ev, call_result = None\<rparr>],
             [(\<lparr>Type = ''lora'', Name = ''a''\<rparr>, ?ev), (\<lparr>Type = ''lora'', Name = ''b''\<rparr>, ?ev)])"
    by (simp add: recording_def)
  with calls_heap vis have
    "invoked 0 ?src \<lparr>ctxErr = None\<rparr> ?ev ?w
       = [\<lparr>callee = \<lparr>Type = ''lora'', Name = ''a''\<rparr>, call_ctx = \<lparr>ctxErr = None\<rparr>,
                call_event = ?ev, call_result = Some (ErrorString ''boom'')\<rparr>,
              \<lparr>callee = \<lparr>Type = ''lora'', Name = ''b''\<rparr>, call_ctx = \<lparr>ctxErr = None\<rparr>,
                call_event = ?ev, call_result = None\<rparr>]"
    "heap (Notify 0 ?src \<lparr>ctxErr = None\<rparr> ?ev ?w)
       = [(\<lparr>Type = ''lora'', Name = ''a''\<rparr>, ?ev), (\<lparr>Type = ''lora'', Name = ''b''\<rparr>, ?ev)]"
    by simp_all
  then show ?thesis
    using mem delivered by (simp add: journal_of_def)
qed

text \<open>
  Claim C2. For every list of events passed to \<^verbatim>\<open>Notify\<close> one after the other, each
  with any context and any order of visiting the map, every registered extractor
  observes calls of \<^verbatim>\<open>ExtractNotification\<close> for exactly those events in exactly that
  order. The calls made and the memory after the last \<^verbatim>\<open>Notify\<close> are those of delivering
  the events one by one, each to the code of every extractor. So nothing is reordered,
  merged or dropped, and an event that is delivered twice reaches the extractor twice:
  if a registered extractor \<open>p\<close> appends every event it is given to a record of its
  own (\<open>view\<close>), which the other extractors leave alone, then after the calls that
  record has grown by exactly the events, in their order.
\<close>

theorem C2_every_extractor_observes_the_events_in_order:
  fixes view :: "'h \<Rightarrow> 'obj NotificationEvent list"
    and w :: "('c, 'obj, 'h) world"
    and t n g exts
  defines "src \<equiv> wired t n g exts"
  assumes reg: "p \<in> set (registered src)"
  shows
  "observed_by (TypedName p) (drop (length (calls w)) (calls (Notify_all src evs w)))
     = map (\<lambda>ev. snd (snd ev)) evs
   \<and> (drop (length (calls w)) (calls (Notify_all src evs w)), heap (Notify_all src evs w))
       = deliver_all src evs (heap w)
   \<and> ((\<forall>c e h. view (snd (the (ExtractNotification p) c e h)) = view h @ [e])
        \<and> (\<forall>q \<in> set (registered src). TypedName q \<noteq> TypedName p \<longrightarrow>
              (\<forall>c e h. view (snd (the (ExtractNotification q) c e h)) = view h))
      \<longrightarrow> view (heap (Notify_all src evs w)) = view (heap w) @ map (\<lambda>ev. snd (snd ev)) evs)"
proof (intro conjI impI)
  have ok: "map_ok (extractors src)"
    unfolding src_def by (rule map_ok_wired)
  show "observed_by (TypedName p) (drop (length (calls w)) (calls (Notify_all src evs w)))
     = map (\<lambda>ev. snd (snd ev)) evs"
    using ok reg by (rule observed_by_Notify_all)
  show "(drop (length (calls w)) (calls (Notify_all src evs w)), heap (Notify_all src evs w))
       = deliver_all src evs (heap w)"
    using ok by (rule Notify_all_deliver_all)
  assume a: "(\<forall>c e h. view (snd (the (ExtractNotification p) c e h)) = view h @ [e])
        \<and> (\<forall>q \<in> set (registered src). TypedName q \<noteq> TypedName p \<longrightarrow>
              (\<forall>c e h. view (snd (the (ExtractNotification q) c e h)) = view h))"
  show "view (heap (Notify_all src evs w)) = view (heap w) @ map (\<lambda>ev. snd (snd ev)) evs"
    using ok reg a [THEN conjunct1] a [THEN conjunct2]
    by (rule view_after_Notify_all)
qed

text \<open>
  An instance: the same object delivered twice as \<^verbatim>\<open>AddOrUpdate\<close> and then deleted, to
  \<open>lora/a\<close>, which records, and \<open>lora/b\<close>, which records and fails; the record of
  \<open>lora/a\<close> ends with the three events in that order.
\<close>

theorem C2_witness:
  "(recording \<lparr>Type = ''lora'', Name = ''a''\<rparr> None :: (unit, string, _) plugin)
     \<in> set (registered (wired ''k8s-notification-source'' ''pods'' pods
           [Some (recording \<lparr>Type = ''lora'', Name = ''a''\<rparr> None),
            Some (recording \<lparr>Type = ''lora'', Name = ''b''\<rparr> (Some (ErrorString ''boom'')))]))
   \<and> heap (Notify_all
        (wired ''k8s-notification-source'' ''pods'' pods
           [Some (recording \<lparr>Type = ''lora'', Name = ''a''\<rparr> None),
            Some (recording \<lparr>Type = ''lora'', Name = ''b''\<rparr> (Some (ErrorString ''boom'')))])
        [(0, \<lparr>ctxErr = None\<rparr>, \<lparr>EType = EventAddOrUpdate, Object = ''pod-1''\<rparr>),
         (1, \<lparr>ctxErr = None\<rparr>, \<lparr>EType = EventAddOrUpdate, Object = ''pod-1''\<rparr>),
         (0, \<lparr>ctxErr = None\<rparr>, \<lparr>EType = EventDelete, Object = ''pod-1''\<rparr>)]
        \<lparr>heap = [], calls = [], logged = []\<rparr>)
     = [(\<lparr>Type = ''lora'', Name = ''a''\<rparr>, \<lparr>EType = EventAddOrUpdate, Object = ''pod-1''\<rparr>),
        (\<lparr>Type = ''lora'', Name = ''b''\<rparr>, \<lparr>EType = EventAddOrUpdate, Object = ''pod-1''\<rparr>),
        (\<lparr>Type = ''lora'', Name = ''b''\<rparr>, \<lparr>EType = EventAddOrUpdate, Object = ''pod-1''\<rparr>),
        (\<lparr>Type = ''lora'', Name = ''a''\<rparr>, \<lparr>EType = EventAddOrUpdate, Object = ''pod-1''\<rparr>),
        (\<lparr>Type = ''lora'', Name = ''a''\<rparr>, \<lparr>EType = EventDelete, Object = ''pod-1''\<rparr>),
        (\<lparr>Type = ''lora'', Name = ''b''\<rparr>, \<lparr>EType = EventDelete, Object = ''pod-1''\<rparr>)]
   \<and> journal_of \<lparr>Type = ''lora'', Name = ''a''\<rparr> (heap (Notify_all
        (wired ''k8s-notification-source'' ''pods'' pods
           [Some (recording \<lparr>Type = ''lora'', Name = ''a''\<rparr> None),
            Some (recording \<lparr>Type = ''lora'', Name = ''b''\<rparr> (Some (ErrorString ''boom'')))])
        [(0, \<lparr>ctxErr = None\<rparr>, \<lparr>EType = EventAddOrUpdate, Object = ''pod-1''\<rparr>),
         (1, \<lparr>ctxErr = None\<rparr>, \<lparr>EType = EventAddOrUpdate, Object = ''pod-1''\<rparr>),
         (0, \<lparr>ctxErr = None\<rparr>, \<lparr>EType = EventDelete, Object = ''pod-1''\<rparr>)]
        \<lparr>heap = [], calls = [], logged = []\<rparr>))
     = [\<lparr>EType = EventAddOrUpdate, Object = ''pod-1''\<rparr>,
        \<lparr>EType = EventAddOrUpdate, Object = ''pod-1''\<rparr>,
        \<lparr>EType = EventDelete, Object = ''pod-1''\<rparr>]"
proof -
  let ?a = "recording \<lparr>Type = ''lora'', Name = ''a''\<rparr> None
              :: (unit, string, (TypedName \<times> string NotificationEvent) list) plugin"
  let ?b = "recording \<lparr>Type = ''lora'', Name = ''b''\<rparr> (Some (ErrorString ''boom''))
              :: (unit, string, (TypedName \<times> string NotificationEvent) list) plugin"
  let ?src = "wired ''k8s-notification-source'' ''pods'' pods [Some ?a, Some ?b]"
  let ?e1 = "\<lparr>EType = EventAddOrUpdate, Object = ''pod-1''\<rparr>"
  let ?e2 = "\<lparr>EType = EventDelete, Object = ''pod-1''\<rparr>"
  let ?evs = "[(0::nat, \<lparr>ctxErr = None\<rparr>, ?e1), (1, \<lparr>ctxErr = None\<rparr>, ?e1),
               (0, \<lparr>ctxErr = None\<rparr>, ?e2)]"
  let ?w = "\<lparr>heap = [], calls = [], logged = []\<rparr>
              :: (unit, string, (TypedName \<times> string NotificationEvent) list) world"
  let ?view = "journal_of \<lparr>Type = ''lora'', Name = ''a''\<rparr>
              :: (TypedName \<times> string NotificationEvent) list \<Rightarrow> string NotificationEvent list"
  have regs: "registered ?src = [?a, ?b]"
    by (simp add: wired_def NewK8sNotificationSource_def AddExtractor_cases
          implementsNotificationExtractor_def recording_def registered_def)
  have mem: "?a \<in> set (registered ?src)"
    by (simp only: regs) simp
  have rec: "\<forall>c e h. ?view (snd (the (ExtractNotification ?a) c e h)) = ?view h @ [e]"
    by (simp add: recording_def journal_of_def)
  have frame: "\<forall>q \<in> set (registered ?src). TypedName q \<noteq> TypedName ?a \<longrightarrow>
                 (\<forall>c e h. ?view (snd (the (ExtractNotification q) c e h)) = ?view h)"
    by (simp only: regs) (simp add: recording_def journal_of_def)
  note inst = C2_every_extractor_observes_the_events_in_order
    [OF mem, where evs = ?evs and w = ?w and view = ?view]
  have journal: "?view (heap (Notify_all ?src ?evs ?w)) = ?view (heap ?w) @ map (\<lambda>ev. snd (snd ev)) ?evs"
    using inst rec frame by blast
  have run: "(drop (length (calls ?w)) (calls (Notify_all ?src ?evs ?w)), heap (Notify_all ?src ?evs ?w))
       = deliver_all ?src ?evs (heap ?w)"
    using inst by blast
  have vis: "visited 0 ?src = [?a, ?b]" "visited (Suc 0) ?src = [?b, ?a]"
    by (simp_all add: visited_def Range_def wired_def NewK8sNotificationSource_def
          AddExtractor_cases implementsNotificationExtractor_def recording_def)
  have "snd (deliver_all ?src ?evs (heap ?w))
          = [(\<lparr>Type = ''lora'', Name = ''a''\<rparr>, ?e1), (\<lparr>Type = ''lora'', Name = ''b''\<rparr>, ?e1),
             (\<lparr>Type = ''lora'', Name = ''b''\<rparr>, ?e1), (\<lparr>Type = ''lora'', Name = ''a''\<rparr>, ?e1),
             (\<lparr>Type = ''lora'', Name = ''a''\<rparr>, ?e2), (\<lparr>Type = ''lora'', Name = ''b''\<rparr>, ?e2)]"
    by (simp add: vis) (simp add: recording_def)
  with run have "heap (Notify_all ?src ?evs ?w)
          = [(\<lparr>Type = ''lora'', Name = ''a''\<rparr>, ?e1), (\<lparr>Type = ''lora'', Name = ''b''\<rparr>, ?e1),
             (\<lparr>Type = ''lora'', Name = ''b''\<rparr>, ?e1), (\<lparr>Type = ''lora'', Name = ''a''\<rparr>, ?e1),
             (\<lparr>Type = ''lora'', Name = ''a''\<rparr>, ?e2), (\<lparr>Type = ''lora'', Name = ''b''\<rparr>, ?e2)]"
    by (metis snd_conv)
  then show ?thesis
    using mem journal by (simp add: journal_of_def)
qed

text \<open>
  Claim C3. \<^verbatim>\<open>Notify\<close> returns nothing to its caller: in Go it has no result, and
  here its value is the world after the call and nothing else. What becomes of the
  errors of the extractors is this: every call that failed contributes its error,
  wrapped with the name of the extractor; if there is any, their join is logged once,
  with the kind and the event type; otherwise nothing is logged. This holds for every
  source and every input, also when every extractor fails.
\<close>

theorem C3_Notify_logs_the_errors_and_returns_none:
  "logged (Notify ord s ctx event w) =
     logged w @
       (if List.map_filter wrap_failed (invoked ord s ctx event w) = [] then []
        else [\<lparr>log_gvk = gvk s, log_eventType = EType event,
               log_err = JoinError (List.map_filter wrap_failed (invoked ord s ctx event w)),
               log_msg = ''extractor(s) failed processing notification''\<rparr>])
   \<and> length (List.map_filter wrap_failed (invoked ord s ctx event w))
     = length (filter (\<lambda>c. call_result c \<noteq> None) (invoked ord s ctx event w))
   \<and> calls (Notify ord s ctx event w) = calls w @ invoked ord s ctx event w"
proof (intro conjI)
  show "logged (Notify ord s ctx event w) =
     logged w @
       (if List.map_filter wrap_failed (invoked ord s ctx event w) = [] then []
        else [\<lparr>log_gvk = gvk s, log_eventType = EType event,
               log_err = JoinError (List.map_filter wrap_failed (invoked ord s ctx event w)),
               log_msg = ''extractor(s) failed processing notification''\<rparr>])"
    by (rule logged_Notify)
  have "(wrap_failed c \<noteq> None) = (call_result c \<noteq> None)" for c :: "('a, 'b) call"
    by (simp add: wrap_failed_def split: option.splits)
  then show "length (List.map_filter wrap_failed (invoked ord s ctx event w))
     = length (filter (\<lambda>c. call_result c \<noteq> None) (invoked ord s ctx event w))"
    by (simp add: List.map_filter_def)
  show "calls (Notify ord s ctx event w) = calls w @ invoked ord s ctx event w"
    by (simp add: invoked_eq calls_Notify)
qed

text \<open>
  An instance: both registered extractors fail, and all that happens is one log entry
  with the join of the two wrapped errors.
\<close>

theorem C3_witness:
  "logged (Notify 0
      (wired ''k8s-notification-source'' ''pods'' pods
         [Some (failing \<lparr>Type = ''lora'', Name = ''a''\<rparr> (ErrorString ''boom'')),
          Some (failing \<lparr>Type = ''lora'', Name = ''b''\<rparr> (ErrorString ''bang''))])
      \<lparr>ctxErr = None\<rparr> \<lparr>EType = EventDelete, Object = ''pod-1''\<rparr>
      \<lparr>heap = (), calls = [], logged = []\<rparr>)
   = [\<lparr>log_gvk = pods, log_eventType = EventDelete,
       log_err = JoinError
         [WrapError ''extractor lora/a: boom'' (ErrorString ''boom''),
          WrapError ''extractor lora/b: bang'' (ErrorString ''bang'')],
       log_msg = ''extractor(s) failed processing notification''\<rparr>]"
  using C3_Notify_logs_the_errors_and_returns_none
    [of 0 "wired ''k8s-notification-source'' ''pods'' pods
         [Some (failing \<lparr>Type = ''lora'', Name = ''a''\<rparr> (ErrorString ''boom'')),
          Some (failing \<lparr>Type = ''lora'', Name = ''b''\<rparr> (ErrorString ''bang''))]"
       "\<lparr>ctxErr = None\<rparr>" "\<lparr>EType = EventDelete, Object = ''pod-1''\<rparr>"
       "\<lparr>heap = (), calls = [], logged = []\<rparr>"]
  by (simp add: example_simps del: pods_def)

text \<open>
  Claim C7. A cancelled context does not stop the dispatch. For every context that is
  cancelled (its \<open>ctxErr\<close> is some error), \<^verbatim>\<open>Notify\<close> still calls
  \<^verbatim>\<open>ExtractNotification\<close> on every registered extractor, once each, and hands each of
  them that same context: the calls made and the memory after \<^verbatim>\<open>Notify\<close> are those of
  running the code of each registered extractor in turn with the cancelled context.
  The extractors called, and their order, are the same as with a live context, and an
  extractor that records the events it is given has recorded this one.
\<close>

theorem C7_cancelled_context_does_not_stop_the_dispatch:
  fixes view :: "'h \<Rightarrow> 'obj NotificationEvent list"
    and w :: "('c, 'obj, 'h) world"
    and s :: "('c, 'obj, 'h) K8sNotificationSource"
    and t n g exts ctx err
  defines "src \<equiv> wired t n g exts"
    and "cancelled \<equiv> ctx\<lparr>ctxErr := Some err\<rparr>"
  shows
  "mset (visited ord src) = mset (registered src)
   \<and> (invoked ord src cancelled event w, heap (Notify ord src cancelled event w))
       = extract_all cancelled event (visited ord src) (heap w)
   \<and> mset (map callee (invoked ord src cancelled event w)) = mset (map TypedName (registered src))
   \<and> map call_ctx (invoked ord src cancelled event w)
       = replicate (length (registered src)) cancelled
   \<and> map callee (invoked ord s cancelled event w)
       = map callee (invoked ord s (ctx\<lparr>ctxErr := None\<rparr>) event w)
   \<and> (p \<in> set (registered src)
        \<and> (\<forall>c e h. view (snd (the (ExtractNotification p) c e h)) = view h @ [e])
        \<and> (\<forall>q \<in> set (registered src). TypedName q \<noteq> TypedName p \<longrightarrow>
              (\<forall>c e h. view (snd (the (ExtractNotification q) c e h)) = view h))
      \<longrightarrow> view (heap (Notify ord src cancelled event w)) = view (heap w) @ [event])"
proof (intro conjI impI)
  have ok: "map_ok (extractors src)"
    unfolding src_def by (rule map_ok_wired)
  show "mset (visited ord src) = mset (registered src)"
    by (rule mset_visited)
  show "(invoked ord src cancelled event w, heap (Notify ord src cancelled event w))
       = extract_all cancelled event (visited ord src) (heap w)"
    using ok by (rule Notify_extract_all)
  show "mset (map callee (invoked ord src cancelled event w))
          = mset (map TypedName (registered src))"
    using ok by (rule mset_callee_invoked_ok)
  have "length (invoked ord src cancelled event w) = length (registered src)"
    using ok by (simp add: length_invoked_ok registered_def)
  then show "map call_ctx (invoked ord src cancelled event w)
       = replicate (length (registered src)) cancelled"
    by (simp only: ctx_invoked)
  show "map callee (invoked ord s cancelled event w)
       = map callee (invoked ord s (ctx\<lparr>ctxErr := None\<rparr>) event w)"
    by (simp only: callee_invoked)
  assume a: "p \<in> set (registered src)
        \<and> (\<forall>c e h. view (snd (the (ExtractNotification p) c e h)) = view h @ [e])
        \<and> (\<forall>q \<in> set (registered src). TypedName q \<noteq> TypedName p \<longrightarrow>
              (\<forall>c e h. view (snd (the (ExtractNotification q) c e h)) = view h))"
  show "view (heap (Notify ord src cancelled event w)) = view (heap w) @ [event]"
    using ok a [THEN conjunct1] a [THEN conjunct2, THEN conjunct1]
      a [THEN conjunct2, THEN conjunct2]
    by (rule view_after_Notify)
qed

text \<open>
  An instance: with a context that was cancelled before the call, both recording
  extractors are called with it, and the journal holds the event for both.
\<close>

theorem C7_witness:
  "(recording \<lparr>Type = ''lora'', Name = ''b''\<rparr> None :: (unit, string, _) plugin)
     \<in> set (registered (wired ''k8s-notification-source'' ''pods'' pods
           [Some (recording \<lparr>Type = ''lora'', Name = ''a''\<rparr> None),
            Some (recording \<lparr>Type = ''lora'', Name = ''b''\<rparr> None)]))
   \<and> map call_ctx (invoked 0
        (wired ''k8s-notification-source'' ''pods'' pods
           [Some (recording \<lparr>Type = ''lora'', Name = ''a''\<rparr> None),
            Some (recording \<lparr>Type = ''lora'', Name = ''b''\<rparr> None)])
        \<lparr>ctxErr = Some (ErrorString ''context canceled'')\<rparr>
        \<lparr>EType = EventAddOrUpdate, Object = ''pod-1''\<rparr>
        \<lparr>heap = [], calls = [], logged = []\<rparr>)
     = [\<lparr>ctxErr = Some (ErrorString ''context canceled'')\<rparr>,
        \<lparr>ctxErr = Some (ErrorString ''context canceled'')\<rparr>]
   \<and> heap (Notify 0
        (wired ''k8s-notification-source'' ''pods'' pods
           [Some (recording \<lparr>Type = ''lora'', Name = ''a''\<rparr> None),
            Some (recording \<lparr>Type = ''lora'', Name = ''b''\<rparr> None)])
        \<lparr>ctxErr = Some (ErrorString ''context canceled'')\<rparr>
        \<lparr>EType = EventAddOrUpdate, Object = ''pod-1''\<rparr>
        \<lparr>heap = [], calls = [], logged = []\<rparr>)
     = [(\<lparr>Type = ''lora'', Name = ''a''\<rparr>, \<lparr>EType = EventAddOrUpdate, Object = ''pod-1''\<rparr>),
        (\<lparr>Type = ''lora'', Name = ''b''\<rparr>, \<lparr>EType = EventAddOrUpdate, Object = ''pod-1''\<rparr>)]
   \<and> journal_of \<lparr>Type = ''lora'', Name = ''b''\<rparr> (heap (Notify 0
        (wired ''k8s-notification-source'' ''pods'' pods
           [Some (recording \<lparr>Type = ''lora'', Name = ''a''\<rparr> None),
            Some (recording \<lparr>Type = ''lora'', Name = ''b''\<rparr> None)])
        \<lparr>ctxErr = Some (ErrorString ''context canceled'')\<rparr>
        \<lparr>EType = EventAddOrUpdate, Object = ''pod-1''\<rparr>
        \<lparr>heap = [], calls = [], logged = []\<rparr>))
     = [\<lparr>EType = EventAddOrUpdate, Object = ''pod-1''\<rparr>]"
proof -
  let ?a = "recording \<lparr>Type = ''lora'', Name = ''a''\<rparr> None
              :: (unit, string, (TypedName \<times> string NotificationEvent) list) plugin"
  let ?b = "recording \<lparr>Type = ''lora'', Name = ''b''\<rparr> None
              :: (unit, string, (TypedName \<times> string NotificationEvent) list) plugin"
  let ?src = "wired ''k8s-notification-source'' ''pods'' pods [Some ?a, Some ?b]"
  let ?ev = "\<lparr>EType = EventAddOrUpdate, Object = ''pod-1''\<rparr>"
  let ?ctx = "\<lparr>ctxErr = Some (ErrorString ''context canceled'')\<rparr>"
  let ?w = "\<lparr>heap = [], calls = [], logged = []\<rparr>
              :: (unit, string, (TypedName \<times> string NotificationEvent) list) world"
  let ?view = "journal_of \<lparr>Type = ''lora'', Name = ''b''\<rparr>
              :: (TypedName \<times> string NotificationEvent) list \<Rightarrow> string NotificationEvent list"
  have regs: "registered ?src = [?a, ?b]"
    by (simp add: wired_def NewK8sNotificationSource_def AddExtractor_cases
          implementsNotificationExtractor_def recording_def registered_def)
  have mem: "?b \<in> set (registered ?src)"
    by (simp only: regs) simp
  have rec: "\<forall>c e h. ?view (snd (the (ExtractNotification ?b) c e h)) = ?view h @ [e]"
    by (simp add: recording_def journal_of_def)
  have frame: "\<forall>q \<in> set (registered ?src). TypedName q \<noteq> TypedName ?b \<longrightarrow>
                 (\<forall>c e h. ?view (snd (the (ExtractNotification q) c e h)) = ?view h)"
    by (simp only: regs) (simp add: recording_def journal_of_def)
  have c: "\<lparr>ctxErr = None\<rparr>\<lparr>ctxErr := Some (ErrorString ''context canceled'')\<rparr> = ?ctx"
    by simp
  note inst = C7_cancelled_context_does_not_stop_the_dispatch
    [where ord = 0 and t = "''k8s-notification-source''" and n = "''pods''" and g = pods
       and exts = "[Some ?a, Some ?b]" and ctx = "\<lparr>ctxErr = None\<rparr>"
       and err = "ErrorString ''context canceled''" and event = ?ev
       and w = ?w and p = ?b and view = ?view and s = ?src, unfolded c]
  have delivered: "?view (heap (Notify 0 ?src ?ctx ?ev ?w)) = ?view (heap ?w) @ [?ev]"
    using inst mem rec frame by blast
  have ctxs: "map call_ctx (invoked 0 ?src ?ctx ?ev ?w) = replicate (length (registered ?src)) ?ctx"
    using inst by blast
  have run: "(invoked 0 ?src ?ctx ?ev ?w, heap (Notify 0 ?src ?ctx ?ev ?w))
       = extract_all ?ctx ?ev (visited 0 ?src) (heap ?w)"
    using inst by blast
  have vis: "visited 0 ?src = [?a, ?b]"
    by (simp add: visited_def Range_def wired_def NewK8sNotificationSource_def AddExtractor_cases
          implementsNotificationExtractor_def recording_def)
  have "snd (extract_all ?ctx ?ev (visited 0 ?src) (heap ?w))
          = [(\<lparr>Type = ''lora'', Name = ''a''\<rparr>, ?ev), (\<lparr>Type = ''lora'', Name = ''b''\<rparr>, ?ev)]"
    by (simp add: vis) (simp add: recording_def)
  with run have "heap (Notify 0 ?src ?ctx ?ev ?w)
          = [(\<lparr>Type = ''lora'', Name = ''a''\<rparr>, ?ev), (\<lparr>Type = ''lora'', Name = ''b''\<rparr>, ?ev)]"
    by (metis snd_conv)
  then show ?thesis
    using mem delivered ctxs by (simp add: journal_of_def regs)
qed

text \<open>
  Claim C9. After any list of \<^verbatim>\<open>AddExtractor\<close>, \<^verbatim>\<open>Notify\<close> and \<^verbatim>\<open>Collect\<close> operations
  on a freshly constructed source, in any order and with any arguments, every value
  stored in the extractor map implements \<^verbatim>\<open>NotificationExtractor\<close>. So the guards of
  \<^verbatim>\<open>Extractors\<close> and \<^verbatim>\<open>Notify\<close> skip no entry: \<^verbatim>\<open>Extractors\<close> returns as many names as
  the map has entries, and \<^verbatim>\<open>Notify\<close> makes as many calls.
\<close>

theorem C9_every_stored_value_is_a_NotificationExtractor:
  "list_all implementsNotificationExtractor
     (registered (fst (run ops (NewK8sNotificationSource t n g, w0))))
   \<and> length (Extractors ord (fst (run ops (NewK8sNotificationSource t n g, w0))))
     = length (extractors (fst (run ops (NewK8sNotificationSource t n g, w0))))
   \<and> length (invoked ord (fst (run ops (NewK8sNotificationSource t n g, w0))) ctx event w)
     = length (extractors (fst (run ops (NewK8sNotificationSource t n g, w0))))"
proof -
  let ?s = "fst (run ops (NewK8sNotificationSource t n g, w0))"
  have "map_ok (extractors (fst (NewK8sNotificationSource t n g, w0)))"
    by (simp add: NewK8sNotificationSource_def map_ok_def)
  then have ok: "map_ok (extractors ?s)" by (rule map_ok_run)
  then have "list_all implementsNotificationExtractor (registered ?s)"
    by (simp add: map_ok_def entry_ok_def registered_def list_all_iff)
  moreover have "length (Extractors ord ?s) = length (extractors ?s)"
    using mset_eq_length [OF mset_Extractors_ok [OF ok, of ord]]
    by (simp add: registered_def)
  moreover have "length (invoked ord ?s ctx event w) = length (extractors ?s)"
    using ok by (rule length_invoked_ok)
  ultimately show ?thesis by simp
qed

text \<open>
  An instance: three registrations, one of them refused for lack of the capability,
  with a \<^verbatim>\<open>Notify\<close> and a \<^verbatim>\<open>Collect\<close> in between; the two values in the map are
  the two notification extractors, and both are listed.
\<close>

theorem C9_witness:
  "map TypedName (registered (fst (run
      [DoAddExtractor (Some (succeeding \<lparr>Type = ''lora'', Name = ''a''\<rparr>)),
       DoNotify 0 \<lparr>ctxErr = None\<rparr> \<lparr>EType = EventAddOrUpdate, Object = ''pod-1''\<rparr>,
       DoAddExtractor (Some (base_only \<lparr>Type = ''lora'', Name = ''c''\<rparr>)),
       DoCollect \<lparr>ctxErr = None\<rparr> ''endpoint'',
       DoAddExtractor (Some (failing \<lparr>Type = ''lora'', Name = ''b''\<rparr> (ErrorString ''boom'')))]
      (NewK8sNotificationSource ''k8s-notification-source'' ''pods'' pods,
       \<lparr>heap = (), calls = [], logged = []\<rparr>))))
     = [\<lparr>Type = ''lora'', Name = ''a''\<rparr>, \<lparr>Type = ''lora'', Name = ''b''\<rparr>]
   \<and> Extractors 0 (fst (run
      [DoAddExtractor (Some (succeeding \<lparr>Type = ''lora'', Name = ''a''\<rparr>)),
       DoNotify 0 \<lparr>ctxErr = None\<rparr> \<lparr>EType = EventAddOrUpdate, Object = ''pod-1''\<rparr>,
       DoAddExtractor (Some (base_only \<lparr>Type = ''lora'', Name = ''c''\<rparr>)),
       DoCollect \<lparr>ctxErr = None\<rparr> ''endpoint'',
       DoAddExtractor (Some (failing \<lparr>Type = ''lora'', Name = ''b''\<rparr> (ErrorString ''boom'')))]
      (NewK8sNotificationSource ''k8s-notification-source'' ''pods'' pods,
       \<lparr>heap = (), calls = [], logged = []\<rparr>)))
     = [''lora/a'', ''lora/b'']"
  using C9_every_stored_value_is_a_NotificationExtractor
    [where ord = 0 and t = "''k8s-notification-source''" and n = "''pods''" and g = pods
       and ops = "[DoAddExtractor (Some (succeeding \<lparr>Type = ''lora'', Name = ''a''\<rparr>)),
       DoNotify 0 \<lparr>ctxErr = None\<rparr> \<lparr>EType = EventAddOrUpdate, Object = ''pod-1''\<rparr>,
       DoAddExtractor (Some (base_only \<lparr>Type = ''lora'', Name = ''c''\<rparr>)),
       DoCollect \<lparr>ctxErr = None\<rparr> ''endpoint'',
       DoAddExtractor (Some (failing \<lparr>Type = ''lora'', Name = ''b''\<rparr> (ErrorString ''boom'')))]"
       and ?w0.0 = "\<lparr>heap = (), calls = [], logged = []\<rparr>"
       and ctx = "\<lparr>ctxErr = None\<rparr>"
       and event = "\<lparr>EType = EventAddOrUpdate, Object = ''pod-1''\<rparr>"
       and w = "\<lparr>heap = (), calls = [], logged = []\<rparr>"]
  by (simp add: example_simps run_def Collect_def)

text \<open>
  Claim C10. On a freshly constructed source \<^verbatim>\<open>Extractors\<close> returns the empty list.
  After any list of calls of \<^verbatim>\<open>AddExtractor\<close> on a freshly constructed source, of which
  \<open>k\<close> returned no error, \<^verbatim>\<open>Extractors\<close> returns exactly \<open>k\<close> entries; the entries are,
  in some order, the renderings \<^verbatim>\<open>Type/Name\<close> of the extractors that were accepted,
  and such a rendering is never the bare \<open>Name\<close> under which the extractor is stored.
\<close>

theorem C10_Extractors_lists_the_full_names:
  "Extractors ord (NewK8sNotificationSource t n g) = []
   \<and> length (Extractors ord (wired t n g exts))
     = length (filter (\<lambda>r. r = None) (fst (AddExtractors (NewK8sNotificationSource t n g) exts)))
   \<and> mset (Extractors ord (wired t n g exts))
     = mset (map (\<lambda>p. Type (TypedName p) @ ''/'' @ Name (TypedName p))
               (registered (wired t n g exts)))
   \<and> registered (wired t n g exts)
     = map (\<lambda>er. the (fst er))
         (filter (\<lambda>er. snd er = None)
            (zip exts (fst (AddExtractors (NewK8sNotificationSource t n g) exts))))
   \<and> Type tn @ ''/'' @ Name tn \<noteq> Name tn"
proof (intro conjI)
  let ?rs = "fst (AddExtractors (NewK8sNotificationSource t n g) exts)"
  show "Extractors ord (NewK8sNotificationSource t n g) = []"
    by (simp add: Extractors_def NewK8sNotificationSource_def Range_def)
  show reg: "registered (wired t n g exts)
     = map (\<lambda>er. the (fst er)) (filter (\<lambda>er. snd er = None) (zip exts ?rs))"
    by (simp add: registered_def wired_def extractors_AddExtractors comp_def)
       (simp add: NewK8sNotificationSource_def)
  have "length (Extractors ord (wired t n g exts)) = length (registered (wired t n g exts))"
    using mset_eq_length [OF mset_Extractors_ok [OF map_ok_wired, of ord t n g exts]]
    by simp
  also have "\<dots> = length (filter (\<lambda>er. snd er = None) (zip exts ?rs))"
    by (simp only: reg length_map)
  also have "\<dots> = length (filter (\<lambda>r. r = None) (map snd (zip exts ?rs)))"
    by (simp only: filter_map length_map comp_def)
  also have "\<dots> = length (filter (\<lambda>r. r = None) ?rs)"
    by (simp add: length_AddExtractors)
  finally show "length (Extractors ord (wired t n g exts)) = length (filter (\<lambda>r. r = None) ?rs)" .
  show "mset (Extractors ord (wired t n g exts))
     = mset (map (\<lambda>p. Type (TypedName p) @ ''/'' @ Name (TypedName p))
               (registered (wired t n g exts)))"
    using mset_Extractors_ok [OF map_ok_wired, of ord t n g exts]
    by (simp add: TypedName_String_def)
  have "length (Type tn @ ''/'' @ Name tn) \<noteq> length (Name tn)" by simp
  then show "Type tn @ ''/'' @ Name tn \<noteq> Name tn" by metis
qed

text \<open>
  An instance: five calls of \<^verbatim>\<open>AddExtractor\<close>, refused for \<^verbatim>\<open>nil\<close>, for the missing
  capability and for the \<open>Name\<close> already in use; two are accepted and two names are
  listed, each with its \<open>Type\<close>.
\<close>

theorem C10_witness:
  "fst (AddExtractors (NewK8sNotificationSource ''k8s-notification-source'' ''pods'' pods)
         [Some (succeeding \<lparr>Type = ''lora'', Name = ''a''\<rparr>),
          None,
          Some (base_only \<lparr>Type = ''lora'', Name = ''c''\<rparr>),
          Some (failing \<lparr>Type = ''health'', Name = ''a''\<rparr> (ErrorString ''boom'')),
          Some (failing \<lparr>Type = ''health'', Name = ''b''\<rparr> (ErrorString ''boom'')
                  :: (unit, unit, unit) plugin)])
     = [None,
        Some (ErrorString ''cannot add nil extractor''),
        Some (ErrorString ''extractor lora/c does not implement NotificationExtractor''),
        Some (ErrorString
          ''duplicate extractor health/a on notification source k8s-notification-source/pods''),
        None]
   \<and> Extractors 1
       (wired ''k8s-notification-source'' ''pods'' pods
         [Some (succeeding \<lparr>Type = ''lora'', Name = ''a''\<rparr>),
          None,
          Some (base_only \<lparr>Type = ''lora'', Name = ''c''\<rparr>),
          Some (failing \<lparr>Type = ''health'', Name = ''a''\<rparr> (ErrorString ''boom'')),
          Some (failing \<lparr>Type = ''health'', Name = ''b''\<rparr> (ErrorString ''boom'')
                  :: (unit, unit, unit) plugin)])
     = [''health/b'', ''lora/a'']"
  using C10_Extractors_lists_the_full_names
    [where ord = 1 and t = "''k8s-notification-source''" and n = "''pods''" and g = pods
       and exts = "[Some (succeeding \<lparr>Type = ''lora'', Name = ''a''\<rparr>),
          None,
          Some (base_only \<lparr>Type = ''lora'', Name = ''c''\<rparr>),
          Some (failing \<lparr>Type = ''health'', Name = ''a''\<rparr> (ErrorString ''boom'')),
          Some (failing \<lparr>Type = ''health'', Name = ''b''\<rparr> (ErrorString ''boom'')
                  :: (unit, unit, unit) plugin)]"]
  by (simp add: example_simps)

end
